theory Spec2Isabelle
  imports Complex_Main "HOL-Library.AList"
begin

section \<open>Geometry primitives and the canvas (src/types.ts, src/utils/imageTools.ts)\<close>

text \<open>
  JavaScript numbers are modelled as real numbers: the arithmetic of the program is read
  exactly, without the rounding of IEEE doubles. Pixel dimensions of an image element are
  natural numbers.
\<close>

record point =
  p_x :: real
  p_y :: real

record line =
  l_x1 :: real
  l_y1 :: real
  l_x2 :: real
  l_y2 :: real

text \<open>
  An \<open>HTMLImageElement\<close>: the four dimensions the program reads, and the source the pixels
  were decoded from.
\<close>

record html_image =
  img_src :: string
  naturalWidth :: nat
  naturalHeight :: nat
  elWidth :: nat
  elHeight :: nat

text \<open>
  The 2D canvas is a browser interface. A pixel buffer (\<open>ImageData\<close>) is represented by the
  canvas it was read from: the width and height given to \<open>createCanvas\<close>, the calls made on
  its context in order, and the rectangle given to \<open>getImageData\<close>. Equal call sequences
  give equal pixels. \<open>getContext('2d')\<close> is taken to succeed: the branches for a missing
  context are not modelled.
\<close>

text \<open>
  \<open>Math.PI\<close> and \<open>Math.atan2\<close> are not evaluated: an angle given to \<open>ctx.rotate\<close> is
  represented by the expression that computes it, \<open>(angleDeg * Math.PI) / 180\<close>,
  \<open>Math.atan2(dy, dx)\<close> or the negation of an angle.
\<close>

datatype angle =
    DegToRad real
  | Atan2 real real
  | Negated angle

datatype ctx_call =
    Save
  | Restore
  | Translate real real
  | Rotate angle
  | Scale real real
  | DrawImage html_image real real
  | DrawImageRegion html_image real real real real real real real real

datatype image_data = GetImageData real real "ctx_call list" real real real real

record patch_sample =
  data :: image_data
  origin :: point
  relativeCenter :: point
  size_patch :: real

definition PATCH_SIZE :: real where
  "PATCH_SIZE = 280"

definition clamp :: "real \<Rightarrow> real \<Rightarrow> real \<Rightarrow> real" where
  "clamp v lo hi = max lo (min hi v)"

text \<open>\<open>Math.round\<close>: the nearest integer, halves towards plus infinity.\<close>

definition Math_round :: "real \<Rightarrow> real" where
  "Math_round v = of_int \<lfloor>v + 1 / 2\<rfloor>"

text \<open>\<open>image.naturalWidth || image.width\<close>: the first operand unless it is zero.\<close>

definition availableWidth :: "html_image \<Rightarrow> nat" where
  "availableWidth img = (if naturalWidth img \<noteq> 0 then naturalWidth img else elWidth img)"

definition availableHeight :: "html_image \<Rightarrow> nat" where
  "availableHeight img = (if naturalHeight img \<noteq> 0 then naturalHeight img else elHeight img)"

definition samplePatch :: "html_image \<Rightarrow> point \<Rightarrow> real \<Rightarrow> patch_sample option" where
  "samplePatch img center sz =
     (if availableWidth img = 0 \<or> availableHeight img = 0 then None
      else
        let sampleSize = min sz (min (real (availableWidth img)) (real (availableHeight img)));
            half = sampleSize / 2;
            startX = clamp (Math_round (p_x center - half)) 0
                       (max 0 (real (availableWidth img) - sampleSize));
            startY = clamp (Math_round (p_y center - half)) 0
                       (max 0 (real (availableHeight img) - sampleSize))
        in Some \<lparr> data = GetImageData sampleSize sampleSize
                      [DrawImageRegion img startX startY sampleSize sampleSize 0 0 sampleSize sampleSize]
                      0 0 sampleSize sampleSize,
                  origin = \<lparr> p_x = startX, p_y = startY \<rparr>,
                  relativeCenter = \<lparr> p_x = p_x center - startX, p_y = p_y center - startY \<rparr>,
                  size_patch = sampleSize \<rparr>)"

definition rotatePatch :: "patch_sample \<Rightarrow> real \<Rightarrow> html_image \<Rightarrow> image_data" where
  "rotatePatch sample angleDeg img =
     (let angleRad = DegToRad angleDeg
      in GetImageData (size_patch sample) (size_patch sample)
           [Save,
            Translate (p_x (relativeCenter sample)) (p_y (relativeCenter sample)),
            Rotate angleRad,
            Translate (- p_x (relativeCenter sample)) (- p_y (relativeCenter sample)),
            DrawImage img (- p_x (origin sample)) (- p_y (origin sample)),
            Restore]
           0 0 (size_patch sample) (size_patch sample))"

definition relativeLine :: "patch_sample \<Rightarrow> line \<Rightarrow> line" where
  "relativeLine sample lin =
     \<lparr> l_x1 = l_x1 lin - p_x (origin sample),
       l_y1 = l_y1 lin - p_y (origin sample),
       l_x2 = l_x2 lin - p_x (origin sample),
       l_y2 = l_y2 lin - p_y (origin sample) \<rparr>"

definition reflectPatch :: "patch_sample \<Rightarrow> line \<Rightarrow> html_image \<Rightarrow> image_data" where
  "reflectPatch sample lin img =
     (let rl = relativeLine sample lin;
          angle = Atan2 (l_y2 rl - l_y1 rl) (l_x2 rl - l_x1 rl)
      in GetImageData (size_patch sample) (size_patch sample)
           [Save,
            Translate (l_x1 rl) (l_y1 rl),
            Rotate angle,
            Scale 1 (- 1),
            Rotate (Negated angle),
            Translate (- l_x1 rl) (- l_y1 rl),
            DrawImage img (- p_x (origin sample)) (- p_y (origin sample)),
            Restore]
           0 0 (size_patch sample) (size_patch sample))"

definition glidePatch :: "patch_sample \<Rightarrow> line \<Rightarrow> real \<Rightarrow> html_image \<Rightarrow> image_data" where
  "glidePatch sample lin distancePx img =
     (let rl = relativeLine sample lin;
          angle = Atan2 (l_y2 rl - l_y1 rl) (l_x2 rl - l_x1 rl)
      in GetImageData (size_patch sample) (size_patch sample)
           [Save,
            Translate (l_x1 rl) (l_y1 rl),
            Rotate angle,
            Scale 1 (- 1),
            Translate distancePx 0,
            Rotate (Negated angle),
            Translate (- l_x1 rl) (- l_y1 rl),
            DrawImage img (- p_x (origin sample)) (- p_y (origin sample)),
            Restore]
           0 0 (size_patch sample) (size_patch sample))"

section \<open>Proof state (src/types.ts) and its operations (src/App.tsx)\<close>

datatype proof_type = NoneT | RotationT | MirrorT | GlideT

text \<open>
  \<open>ProofState\<close> is a union discriminated by \<open>type\<close>: the fields of each variant are the
  arguments of its constructor (rotation: center, angleDeg, repeats; mirror: line; glide:
  line, distance), the fields of \<open>BaseProofState\<close> are shared; its buffers \<open>before\<close>
  and \<open>after\<close> are the fields \<open>before_data\<close> and \<open>after_data\<close>.
\<close>

datatype variant =
    NoneV
  | RotationV "point option" real real
  | MirrorV "line option"
  | GlideV "line option" real

record proof_state =
  variant :: variant
  ready :: bool
  before_data :: "image_data option"
  after_data :: "image_data option"
  patchSize :: real
  patchSample :: "patch_sample option"

fun type_of :: "variant \<Rightarrow> proof_type" where
  "type_of NoneV = NoneT"
| "type_of (RotationV c a r) = RotationT"
| "type_of (MirrorV l) = MirrorT"
| "type_of (GlideV l d) = GlideT"

text \<open>\<open>ImageState\<close>: the loaded element, or none before an upload, and its dimensions.\<close>

record image_state =
  element :: "html_image option"
  width :: nat
  height :: nat

definition initialImageState :: image_state where
  "initialImageState = \<lparr> element = None, width = 0, height = 0 \<rparr>"

definition createProofState :: "proof_type \<Rightarrow> real option \<Rightarrow> proof_state" where
  "createProofState ty rotationAngleDeg =
     \<lparr> variant =
         (case ty of
            RotationT \<Rightarrow> RotationV None (case rotationAngleDeg of Some a \<Rightarrow> a | None \<Rightarrow> 180) 1
          | MirrorT \<Rightarrow> MirrorV None
          | GlideT \<Rightarrow> GlideV None (1 / 2)
          | NoneT \<Rightarrow> NoneV),
       ready = (ty = NoneT),
       before_data = None,
       after_data = None,
       patchSize = PATCH_SIZE,
       patchSample = None \<rparr>"

record limits =
  lim_min :: real
  lim_max :: real

definition patchSizeLimits :: "image_state \<Rightarrow> limits" where
  "patchSizeLimits im =
     (if element im = None \<or> width im = 0 \<or> height im = 0
      then \<lparr> lim_min = 60, lim_max = 600 \<rparr>
      else
        let minDim = min (real (width im)) (real (height im));
            hi = max 80 minDim;
            lo = max 40 (min (hi - 20) (minDim * (2 / 10)))
        in \<lparr> lim_min = lo, lim_max = hi \<rparr>)"

definition handleRotationPick :: "image_state \<Rightarrow> point \<Rightarrow> proof_state \<Rightarrow> proof_state" where
  "handleRotationPick im pt prev =
     (case element im of
        None \<Rightarrow> prev
      | Some img \<Rightarrow>
          (case variant prev of
             RotationV c angleDeg repeats \<Rightarrow>
               (case samplePatch img pt (patchSize prev) of
                  None \<Rightarrow> prev
                | Some patch \<Rightarrow>
                    prev \<lparr> before_data := Some (data patch),
                           after_data := Some (rotatePatch patch (angleDeg * repeats) img),
                           variant := RotationV (Some pt) angleDeg repeats,
                           patchSample := Some patch,
                           ready := True \<rparr>)
           | _ \<Rightarrow> prev))"

definition midPoint :: "line \<Rightarrow> point" where
  "midPoint lin = \<lparr> p_x = (l_x1 lin + l_x2 lin) / 2, p_y = (l_y1 lin + l_y2 lin) / 2 \<rparr>"

text \<open>
  \<open>captureLine(line, kind, isFinal)\<close>; \<open>kind\<close> is \<open>'mirror'\<close> or \<open>'glide'\<close>, and any other
  value falls through to \<open>return prev\<close>.
\<close>

definition captureLine :: "image_state \<Rightarrow> line \<Rightarrow> proof_type \<Rightarrow> bool \<Rightarrow> proof_state \<Rightarrow> proof_state" where
  "captureLine im lin kind isFinal prev =
     (case element im of
        None \<Rightarrow> prev
      | Some img \<Rightarrow>
          (case (kind, variant prev) of
             (MirrorT, MirrorV l) \<Rightarrow>
               (case samplePatch img (midPoint lin) (patchSize prev) of
                  None \<Rightarrow> prev
                | Some patch \<Rightarrow>
                    prev \<lparr> before_data := Some (data patch),
                           after_data := Some (reflectPatch patch lin img),
                           variant := MirrorV (Some lin),
                           patchSample := Some patch,
                           ready := (if isFinal then True else ready prev) \<rparr>)
           | (GlideT, GlideV l distance) \<Rightarrow>
               (case samplePatch img (midPoint lin) (patchSize prev) of
                  None \<Rightarrow> prev
                | Some patch \<Rightarrow>
                    let distancePx = distance * (size_patch patch / 2)
                    in prev \<lparr> before_data := Some (data patch),
                              after_data := Some (glidePatch patch lin distancePx img),
                              variant := GlideV (Some lin) distance,
                              patchSample := Some patch,
                              ready := (if isFinal then True else ready prev) \<rparr>)
           | _ \<Rightarrow> prev))"

definition handleGlideDistanceChange :: "image_state \<Rightarrow> real \<Rightarrow> proof_state \<Rightarrow> proof_state" where
  "handleGlideDistanceChange im v prev =
     (case element im of
        None \<Rightarrow> prev
      | Some img \<Rightarrow>
          let baseLength = max (real (width im)) (real (height im))
          in (case (variant prev, patchSample prev) of
                (GlideV (Some lin) distance, Some sample) \<Rightarrow>
                  let distancePx = v * baseLength
                  in prev \<lparr> variant := GlideV (Some lin) v,
                            after_data := Some (glidePatch sample lin distancePx img) \<rparr>
              | _ \<Rightarrow> prev))"

definition resizePatch :: "image_state \<Rightarrow> proof_state \<Rightarrow> real \<Rightarrow> proof_state" where
  "resizePatch im prev sz =
     (case element im of
        None \<Rightarrow> prev \<lparr> patchSize := sz \<rparr>
      | Some img \<Rightarrow>
          (case variant prev of
             RotationV (Some center) angleDeg repeats \<Rightarrow>
               (case samplePatch img center sz of
                  None \<Rightarrow> prev \<lparr> patchSize := sz \<rparr>
                | Some patch \<Rightarrow>
                    prev \<lparr> before_data := Some (data patch),
                           after_data := Some (rotatePatch patch (angleDeg * repeats) img),
                           patchSample := Some patch,
                           patchSize := sz \<rparr>)
           | MirrorV (Some lin) \<Rightarrow>
               (case samplePatch img (midPoint lin) sz of
                  None \<Rightarrow> prev \<lparr> patchSize := sz \<rparr>
                | Some patch \<Rightarrow>
                    prev \<lparr> before_data := Some (data patch),
                           after_data := Some (reflectPatch patch lin img),
                           patchSample := Some patch,
                           patchSize := sz \<rparr>)
           | GlideV (Some lin) distance \<Rightarrow>
               (case samplePatch img (midPoint lin) sz of
                  None \<Rightarrow> prev \<lparr> patchSize := sz \<rparr>
                | Some patch \<Rightarrow>
                    let baseLength = max (real (width im)) (real (height im));
                        distancePx = distance * baseLength
                    in prev \<lparr> before_data := Some (data patch),
                              after_data := Some (glidePatch patch lin distancePx img),
                              patchSample := Some patch,
                              patchSize := sz \<rparr>)
           | _ \<Rightarrow> prev \<lparr> patchSize := sz \<rparr>))"

definition handlePatchSizeChange :: "image_state \<Rightarrow> real \<Rightarrow> proof_state \<Rightarrow> proof_state" where
  "handlePatchSizeChange im v prev =
     (let clamped = min (max v (lim_min (patchSizeLimits im))) (lim_max (patchSizeLimits im))
      in resizePatch im prev clamped)"

definition handleRotationRepeatChange :: "image_state \<Rightarrow> real \<Rightarrow> proof_state \<Rightarrow> proof_state" where
  "handleRotationRepeatChange im v prev =
     (case element im of
        None \<Rightarrow> prev
      | Some img \<Rightarrow>
          let repeats = max 1 v
          in (case (variant prev, patchSample prev) of
                (RotationV (Some center) angleDeg r, Some sample) \<Rightarrow>
                  prev \<lparr> variant := RotationV (Some center) angleDeg repeats,
                         after_data := Some (rotatePatch sample (angleDeg * repeats) img) \<rparr>
              | _ \<Rightarrow> prev))"

text \<open>
  The \<open>max\<close> of the glide slider (\<open>glideMaxDistance\<close> in the render of \<open>App\<close>); the slider
  of \<open>ProofControls\<close> ranges over \<open>[0, glideMaxDistance]\<close>. (A patch of size 0 would give
  \<open>Infinity\<close> in JavaScript and gives 0 here; no property below depends on the upper end
  of the range.)
\<close>

definition glideMaxDistance :: "image_state \<Rightarrow> proof_state \<Rightarrow> real" where
  "glideMaxDistance im st =
     (case patchSample st of
        Some sample \<Rightarrow> (if width im \<noteq> 0 then real (width im) / size_patch sample else 1)
      | None \<Rightarrow> 1)"

section \<open>Decision tree, history and drafts (src/types.ts)\<close>

text \<open>
  The decision tree is static data of the program that the operations only read; it is a
  parameter of every operation that consults it. Labels, prompts and notes are not read
  by any operation and are left out.
\<close>

record answer =
  a_key :: string
  a_next :: string
  a_proofType :: "proof_type option"
  a_rotationAngleDeg :: "real option"

record question_node =
  q_id :: string
  q_proofType :: "proof_type option"
  q_answers :: "answer list"

record leaf_node =
  leaf_id :: string
  groupCode :: string

datatype node = Question question_node | Leaf leaf_node

record decision_tree =
  start :: string
  nodes :: "string \<Rightarrow> node option"

record history_entry =
  h_nodeId :: string
  h_selectedAnswerKey :: "string option"

text \<open>
  The draft store is an object of objects. A JavaScript object keeps its keys in insertion
  order and \<open>{...prev, [k]: v}\<close> replaces the value of an existing key in place or appends
  a new key: an association list with \<open>AList.update\<close>, read with \<open>map_of\<close>.
\<close>

type_synonym drafts = "(string \<times> proof_state) list"

type_synonym draft_store = "(string \<times> drafts) list"

text \<open>
  The state of \<open>App\<close>: the values of its \<open>useState\<close> hooks that the navigation and the
  proof operations read or write (\<open>image\<close> is the field \<open>image_st\<close>). The object URL and
  the unit-cell overlay are independent of them and are left out.
\<close>

record app =
  image_st :: image_state
  currentNodeId :: string
  selectedAnswerKey :: "string option"
  proofState :: proof_state
  history :: "history_entry list"
  draftStore :: draft_store

text \<open>A string or null used as a condition: null and the empty string are false.\<close>

fun truthy :: "string option \<Rightarrow> bool" where
  "truthy None = False"
| "truthy (Some k) = (k \<noteq> [])"

definition resolveProofRequirements :: "question_node \<Rightarrow> answer option \<Rightarrow> proof_type \<times> real option" where
  "resolveProofRequirements nd ans =
     (let ty = (case Option.bind ans a_proofType of
                  Some t \<Rightarrow> t
                | None \<Rightarrow> (case q_proofType nd of Some t \<Rightarrow> t | None \<Rightarrow> NoneT))
      in (ty, Option.bind ans a_rotationAngleDeg))"

definition initialApp :: "decision_tree \<Rightarrow> app" where
  "initialApp tree =
     \<lparr> image_st = initialImageState,
       currentNodeId = start tree,
       selectedAnswerKey = None,
       proofState = createProofState NoneT None,
       history = [],
       draftStore = [] \<rparr>"

definition currentNode :: "decision_tree \<Rightarrow> app \<Rightarrow> node option" where
  "currentNode tree s = nodes tree (currentNodeId s)"

definition imageReady :: "app \<Rightarrow> bool" where
  "imageReady s = (element (image_st s) \<noteq> None)"

text \<open>\<open>(draftStore[nodeId] ?? {})[answerKey]\<close>\<close>

definition lookupDraft :: "draft_store \<Rightarrow> string \<Rightarrow> string \<Rightarrow> proof_state option" where
  "lookupDraft store nodeId answerKey =
     map_of (case map_of store nodeId of Some d \<Rightarrow> d | None \<Rightarrow> []) answerKey"

section \<open>Navigation handlers (src/App.tsx)\<close>

text \<open>The \<open>onload\<close> callback of \<open>handleFileChange\<close>, for a decoded image.\<close>

definition handleFileLoaded :: "decision_tree \<Rightarrow> html_image \<Rightarrow> app \<Rightarrow> app" where
  "handleFileLoaded tree img s =
     s \<lparr> image_st := \<lparr> element = Some img, width = naturalWidth img, height = naturalHeight img \<rparr>,
         currentNodeId := start tree,
         selectedAnswerKey := None,
         history := [],
         proofState := createProofState NoneT None \<rparr>"

definition handleRestart :: "decision_tree \<Rightarrow> app \<Rightarrow> app" where
  "handleRestart tree s =
     s \<lparr> currentNodeId := start tree,
         selectedAnswerKey := None,
         history := [],
         proofState := createProofState NoneT None,
         draftStore := [] \<rparr>"

definition handleSelectAnswer :: "decision_tree \<Rightarrow> string \<Rightarrow> app \<Rightarrow> app" where
  "handleSelectAnswer tree answerKey s =
     (if \<not> imageReady s then s
      else (case currentNode tree s of
        Some (Question nd) \<Rightarrow>
          (case find (\<lambda>candidate. a_key candidate = answerKey) (q_answers nd) of
             None \<Rightarrow> s
           | Some ans \<Rightarrow>
               let (ty, rotationAngleDeg) = resolveProofRequirements nd (Some ans);
                   existingDraft = lookupDraft (draftStore s) (currentNodeId s) answerKey;
                   newProofState = (case existingDraft of
                                      Some d \<Rightarrow> d
                                    | None \<Rightarrow> createProofState ty rotationAngleDeg)
               in s \<lparr> selectedAnswerKey := Some answerKey, proofState := newProofState \<rparr>)
      | _ \<Rightarrow> s))"

definition handleResetProof :: "decision_tree \<Rightarrow> app \<Rightarrow> app" where
  "handleResetProof tree s =
     (case currentNode tree s of
        Some (Question nd) \<Rightarrow>
          (case selectedAnswerKey s of
             None \<Rightarrow> s
           | Some k \<Rightarrow>
               if k = [] then s
               else (case find (\<lambda>candidate. a_key candidate = k) (q_answers nd) of
                       None \<Rightarrow> s
                     | Some ans \<Rightarrow>
                         let (ty, rotationAngleDeg) = resolveProofRequirements nd (Some ans)
                         in s \<lparr> proofState := createProofState ty rotationAngleDeg \<rparr>))
      | _ \<Rightarrow> s)"

definition handleChangeAnswer :: "app \<Rightarrow> app" where
  "handleChangeAnswer s =
     s \<lparr> selectedAnswerKey := None, proofState := createProofState NoneT None \<rparr>"

definition handleConfirmAnswer :: "decision_tree \<Rightarrow> app \<Rightarrow> app" where
  "handleConfirmAnswer tree s =
     (case currentNode tree s of
        Some (Question nd) \<Rightarrow>
          (case selectedAnswerKey s of
             None \<Rightarrow> s
           | Some k \<Rightarrow>
               if k = [] \<or> \<not> ready (proofState s) then s
               else (case find (\<lambda>candidate. a_key candidate = k) (q_answers nd) of
                 None \<Rightarrow> s
               | Some ans \<Rightarrow>
                   s \<lparr> history := history s @ [\<lparr> h_nodeId = q_id nd, h_selectedAnswerKey = Some k \<rparr>],
                       currentNodeId := a_next ans,
                       selectedAnswerKey := None,
                       proofState := createProofState NoneT None,
                       draftStore :=
                         AList.update (a_next ans)
                           (case map_of (draftStore s) (a_next ans) of Some d \<Rightarrow> d | None \<Rightarrow> [])
                           (draftStore s) \<rparr>))
      | _ \<Rightarrow> s)"

definition handleBack :: "decision_tree \<Rightarrow> app \<Rightarrow> app" where
  "handleBack tree s =
     (if history s = [] then s
      else
        let lst = last (history s);
            nextHistory = butlast (history s);
            restored =
              (case nodes tree (h_nodeId lst) of
                 Some (Question nd) \<Rightarrow>
                   (case h_selectedAnswerKey lst of
                      None \<Rightarrow> createProofState NoneT None
                    | Some k \<Rightarrow>
                        if k = [] then createProofState NoneT None
                        else (case lookupDraft (draftStore s) (h_nodeId lst) k of
                          Some storedDraft \<Rightarrow> storedDraft
                        | None \<Rightarrow>
                            let ans = find (\<lambda>candidate. a_key candidate = k) (q_answers nd);
                                (ty, rotationAngleDeg) = resolveProofRequirements nd ans
                            in createProofState ty rotationAngleDeg))
               | _ \<Rightarrow> createProofState NoneT None)
        in s \<lparr> currentNodeId := h_nodeId lst,
               selectedAnswerKey := h_selectedAnswerKey lst,
               proofState := restored,
               history := nextHistory \<rparr>)"

section \<open>Events, effects and rendering (src/App.tsx)\<close>

text \<open>
  The handlers that \<open>App\<close> passes to \<open>ImagePane\<close> and \<open>ProofControls\<close> update the proof state
  through \<open>setProofState\<close>; \<open>handleMirrorLine\<close>, \<open>handleGlideLine\<close> and \<open>handleDraftLine\<close>
  are the three uses of \<open>captureLine\<close>.
\<close>

datatype event =
    FileLoaded html_image
  | Restart
  | SelectAnswer string
  | ResetProof
  | ChangeAnswer
  | ConfirmAnswer
  | Back
  | RotationPick point
  | MirrorLine line
  | GlideLine line
  | DraftLine line proof_type
  | GlideDistanceChange real
  | PatchSizeChange real
  | RotationRepeatChange real

definition setProofState :: "(image_state \<Rightarrow> proof_state \<Rightarrow> proof_state) \<Rightarrow> app \<Rightarrow> app" where
  "setProofState f s = s \<lparr> proofState := f (image_st s) (proofState s) \<rparr>"

fun handle :: "decision_tree \<Rightarrow> event \<Rightarrow> app \<Rightarrow> app" where
  "handle tree (FileLoaded img) s = handleFileLoaded tree img s"
| "handle tree Restart s = handleRestart tree s"
| "handle tree (SelectAnswer k) s = handleSelectAnswer tree k s"
| "handle tree ResetProof s = handleResetProof tree s"
| "handle tree ChangeAnswer s = handleChangeAnswer s"
| "handle tree ConfirmAnswer s = handleConfirmAnswer tree s"
| "handle tree Back s = handleBack tree s"
| "handle tree (RotationPick pt) s = setProofState (\<lambda>im. handleRotationPick im pt) s"
| "handle tree (MirrorLine lin) s = setProofState (\<lambda>im. captureLine im lin MirrorT True) s"
| "handle tree (GlideLine lin) s = setProofState (\<lambda>im. captureLine im lin GlideT True) s"
| "handle tree (DraftLine lin kind) s = setProofState (\<lambda>im. captureLine im lin kind False) s"
| "handle tree (GlideDistanceChange v) s = setProofState (\<lambda>im. handleGlideDistanceChange im v) s"
| "handle tree (PatchSizeChange v) s = setProofState (\<lambda>im. handlePatchSizeChange im v) s"
| "handle tree (RotationRepeatChange v) s = setProofState (\<lambda>im. handleRotationRepeatChange im v) s"

text \<open>
  The two effects of \<open>App\<close> that write state. An effect runs after a render when one of its
  dependencies differs from the previous render; it reads the values of the render it runs
  in, and its updates are applied in order before the next render. Dependencies are
  compared by value here.
\<close>

definition autoConfirmDeps :: "decision_tree \<Rightarrow> app \<Rightarrow> proof_type \<times> string option \<times> node option" where
  "autoConfirmDeps tree s = (type_of (variant (proofState s)), selectedAnswerKey s, currentNode tree s)"

definition draftDeps :: "app \<Rightarrow> string \<times> proof_state \<times> string option" where
  "draftDeps s = (currentNodeId s, proofState s, selectedAnswerKey s)"

fun isQuestion :: "node option \<Rightarrow> bool" where
  "isQuestion (Some (Question nd)) = True"
| "isQuestion _ = False"

text \<open>
  \<open>{...prev, [currentNodeId]: {...(prev[currentNodeId] ?? {}), [selectedAnswerKey]: proofState}}\<close>
\<close>

definition writeDraft :: "string \<Rightarrow> string \<Rightarrow> proof_state \<Rightarrow> draft_store \<Rightarrow> draft_store" where
  "writeDraft nodeId k st store =
     AList.update nodeId
       (AList.update k st (case map_of store nodeId of Some d \<Rightarrow> d | None \<Rightarrow> []))
       store"

text \<open>
  The first effect, with dependencies \<open>[proofState.type, selectedAnswerKey, currentNode]\<close>:
  it calls \<open>handleConfirmAnswer\<close> of the render it runs in.
\<close>

definition autoConfirmEffect :: "decision_tree \<Rightarrow> app \<Rightarrow> app" where
  "autoConfirmEffect tree cur =
     (if truthy (selectedAnswerKey cur)
         \<and> type_of (variant (proofState cur)) = NoneT
         \<and> isQuestion (currentNode tree cur)
      then handleConfirmAnswer tree cur
      else cur)"

text \<open>
  The second effect, with dependencies \<open>[currentNodeId, proofState, selectedAnswerKey]\<close>:
  it writes the proof state of the render \<open>cur\<close> it runs in into the pending draft store.
\<close>

definition draftEffect :: "app \<Rightarrow> app \<Rightarrow> app" where
  "draftEffect cur pending =
     (case selectedAnswerKey cur of
        None \<Rightarrow> pending
      | Some k \<Rightarrow>
          if k = [] then pending
          else pending \<lparr> draftStore :=
                 writeDraft (currentNodeId cur) k (proofState cur) (draftStore pending) \<rparr>)"

definition runEffects :: "decision_tree \<Rightarrow> app \<Rightarrow> app \<Rightarrow> app" where
  "runEffects tree prev cur =
     (let s1 = (if autoConfirmDeps tree prev \<noteq> autoConfirmDeps tree cur
                then autoConfirmEffect tree cur
                else cur)
      in if draftDeps prev \<noteq> draftDeps cur then draftEffect cur s1 else s1)"

text \<open>
  Rendering repeats until a render runs no effect: \<open>prev\<close> is the previous render and
  \<open>cur\<close> the state being rendered.
\<close>

function settle :: "decision_tree \<Rightarrow> app \<Rightarrow> app \<Rightarrow> app" where
  "settle tree prev cur =
     (if autoConfirmDeps tree prev = autoConfirmDeps tree cur \<and> draftDeps prev = draftDeps cur
      then cur
      else settle tree cur (runEffects tree prev cur))"
  by pat_completeness auto

text \<open>
  Rendering stops after at most three renders: an effect that changes a dependency is a
  confirmation, which clears the selection, and without a selection no effect writes.
\<close>

termination settle
proof (relation "measure (\<lambda>(tree, prev, cur).
     if autoConfirmDeps tree prev = autoConfirmDeps tree cur \<and> draftDeps prev = draftDeps cur then 0
     else if truthy (selectedAnswerKey cur) then 2 else 1)", goal_cases)
  case 1
  show ?case by simp
next
  case (2 tree prev cur)
  have confirm: "handleConfirmAnswer tree cur = cur
      \<or> selectedAnswerKey (handleConfirmAnswer tree cur) = None"
    by (auto simp: handleConfirmAnswer_def split: option.splits node.splits)
  show ?case
  proof (cases "truthy (selectedAnswerKey cur)")
    case False
    then have "runEffects tree prev cur = cur"
      by (cases "selectedAnswerKey cur")
         (auto simp: runEffects_def autoConfirmEffect_def draftEffect_def)
    then show ?thesis using 2 by simp
  next
    case True
    have "selectedAnswerKey (runEffects tree prev cur) = None \<or>
       (autoConfirmDeps tree (runEffects tree prev cur) = autoConfirmDeps tree cur \<and>
        draftDeps (runEffects tree prev cur) = draftDeps cur)"
      using confirm
      by (auto simp: runEffects_def autoConfirmEffect_def draftEffect_def Let_def
                     autoConfirmDeps_def draftDeps_def currentNode_def
               split: option.splits)
    then show ?thesis using True 2 by auto
  qed
qed

declare settle.simps [simp del]

text \<open>One user event: the handler runs on the rendered state, then the effects settle.\<close>

definition dispatch :: "decision_tree \<Rightarrow> event \<Rightarrow> app \<Rightarrow> app" where
  "dispatch tree ev s = settle tree s (handle tree ev s)"

section \<open>The specification's reading of the crop, and example data\<close>

text \<open>
  The crop start as the specification words it: \<open>focus - size/2\<close> clamped into
  \<open>[0, imageDim - size]\<close>, then rounded. (\<open>samplePatch\<close> rounds first and clamps after.)
\<close>

definition spec_cropStart :: "real \<Rightarrow> real \<Rightarrow> real \<Rightarrow> real" where
  "spec_cropStart focus sz imageDim = Math_round (clamp (focus - sz / 2) 0 (imageDim - sz))"

definition img251 :: html_image where
  "img251 = \<lparr> img_src = ''tile.png'', naturalWidth = 251, naturalHeight = 251,
              elWidth = 251, elHeight = 251 \<rparr>"

definition img300 :: html_image where
  "img300 = \<lparr> img_src = ''frieze.png'', naturalWidth = 300, naturalHeight = 200,
              elWidth = 300, elHeight = 200 \<rparr>"

definition img1000 :: html_image where
  "img1000 = \<lparr> img_src = ''wall.png'', naturalWidth = 1000, naturalHeight = 600,
               elWidth = 1000, elHeight = 600 \<rparr>"

definition im300 :: image_state where
  "im300 = \<lparr> element = Some img300, width = 300, height = 200 \<rparr>"

definition im1000 :: image_state where
  "im1000 = \<lparr> element = Some img1000, width = 1000, height = 600 \<rparr>"

definition lineH :: line where
  "lineH = \<lparr> l_x1 = 100, l_y1 = 100, l_x2 = 200, l_y2 = 100 \<rparr>"

text \<open>Example proof states: a line or a center supplied to a fresh state.\<close>

definition glide300 :: proof_state where
  "glide300 = captureLine im300 lineH GlideT True (createProofState GlideT None)"

definition glide1000 :: proof_state where
  "glide1000 = captureLine im1000 lineH GlideT True (createProofState GlideT None)"

definition mirror300 :: proof_state where
  "mirror300 = captureLine im300 lineH MirrorT True (createProofState MirrorT None)"

definition rotation300 :: proof_state where
  "rotation300 =
     handleRotationPick im300 \<lparr> p_x = 150, p_y = 100 \<rparr> (createProofState RotationT (Some 90))"

text \<open>A committed geometric input: a rotation center or a line.\<close>

fun committedInput :: "variant \<Rightarrow> bool" where
  "committedInput (RotationV (Some c) a n) = True"
| "committedInput (MirrorV (Some l)) = True"
| "committedInput (GlideV (Some l) d) = True"
| "committedInput _ = False"

text \<open>
  An example decision tree. The first question asks for a mirror proof; its answer
  \<open>glide\<close> asks for a glide proof and its answer \<open>no\<close> for none.
\<close>

definition ans_yes :: answer where
  "ans_yes = \<lparr> a_key = ''yes'', a_next = ''n2'', a_proofType = None, a_rotationAngleDeg = None \<rparr>"

definition ans_glide :: answer where
  "ans_glide = \<lparr> a_key = ''glide'', a_next = ''n2'', a_proofType = Some GlideT,
                 a_rotationAngleDeg = None \<rparr>"

definition ans_no :: answer where
  "ans_no = \<lparr> a_key = ''no'', a_next = ''n3'', a_proofType = Some NoneT,
              a_rotationAngleDeg = None \<rparr>"

definition node1 :: question_node where
  "node1 = \<lparr> q_id = ''n1'', q_proofType = Some MirrorT, q_answers = [ans_yes, ans_glide, ans_no] \<rparr>"

definition node2 :: question_node where
  "node2 = \<lparr> q_id = ''n2'', q_proofType = Some GlideT,
             q_answers = [\<lparr> a_key = ''yes'', a_next = ''pg'', a_proofType = None,
                            a_rotationAngleDeg = None \<rparr>] \<rparr>"

definition node3 :: question_node where
  "node3 = \<lparr> q_id = ''n3'', q_proofType = Some RotationT,
             q_answers = [\<lparr> a_key = ''yes'', a_next = ''p4'', a_proofType = None,
                            a_rotationAngleDeg = Some 90 \<rparr>] \<rparr>"

definition tree_ex :: decision_tree where
  "tree_ex =
     \<lparr> start = ''n1'',
       nodes = map_of
         [(''n1'', Question node1),
          (''n2'', Question node2),
          (''n3'', Question node3),
          (''pg'', Leaf \<lparr> leaf_id = ''pg'', groupCode = ''pg'' \<rparr>),
          (''p4'', Leaf \<lparr> leaf_id = ''p4'', groupCode = ''p4'' \<rparr>)] \<rparr>"

text \<open>The session after the upload of the 300 x 200 image, at the first question.\<close>

definition app300 :: app where
  "app300 =
     \<lparr> image_st = im300,
       currentNodeId = ''n1'',
       selectedAnswerKey = None,
       proofState = createProofState NoneT None,
       history = [],
       draftStore = [] \<rparr>"

text \<open>The same session with the answer \<open>yes\<close> selected and no line drawn yet.\<close>

definition stalled :: app where
  "stalled = app300 \<lparr> selectedAnswerKey := Some ''yes'', proofState := createProofState MirrorT None \<rparr>"

text \<open>The same session after the answer \<open>yes\<close> was selected and the line drawn.\<close>

definition drawn300 :: app where
  "drawn300 =
     \<lparr> image_st = im300,
       currentNodeId = ''n1'',
       selectedAnswerKey = Some ''yes'',
       proofState = mirror300,
       history = [],
       draftStore = [(''n1'', [(''yes'', mirror300)])] \<rparr>"

text \<open>The session at the first question with a history entry and no draft.\<close>

definition returned300 :: app where
  "returned300 = app300 \<lparr> history := [\<lparr> h_nodeId = ''n1'', h_selectedAnswerKey = Some ''yes'' \<rparr>] \<rparr>"

section \<open>Sessions\<close>

text \<open>
  A session is a list of user events, run from a state. The glide slider of
  \<open>ProofControls\<close> is a range input from 0 to \<open>glideMaxDistance\<close>: these are the values
  \<open>handleGlideDistanceChange\<close> can receive from it. The other events are not restricted.
\<close>

fun admissible :: "app \<Rightarrow> event \<Rightarrow> bool" where
  "admissible s (GlideDistanceChange v) =
     (0 \<le> v \<and> v \<le> glideMaxDistance (image_st s) (proofState s))"
| "admissible s _ = True"

fun run :: "decision_tree \<Rightarrow> app \<Rightarrow> event list \<Rightarrow> app" where
  "run tree s [] = s"
| "run tree s (ev # evs) = run tree (dispatch tree ev s) evs"

fun admissibleRun :: "decision_tree \<Rightarrow> app \<Rightarrow> event list \<Rightarrow> bool" where
  "admissibleRun tree s [] = True"
| "admissibleRun tree s (ev # evs) = (admissible s ev \<and> admissibleRun tree (dispatch tree ev s) evs)"

text \<open>Every question of the tree is stored under its own id.\<close>

definition wf_tree :: "decision_tree \<Rightarrow> bool" where
  "wf_tree tree = (\<forall>n nd. nodes tree n = Some (Question nd) \<longrightarrow> q_id nd = n)"

subsection \<open>Invariants of a session\<close>

text \<open>A glide distance is not negative, and a state of the none variant is ready.\<close>

definition stateOK :: "proof_state \<Rightarrow> bool" where
  "stateOK st =
     ((case variant st of GlideV l d \<Rightarrow> 0 \<le> d | _ \<Rightarrow> True)
      \<and> (variant st = NoneV \<longrightarrow> ready st))"

definition storeOK :: "draft_store \<Rightarrow> bool" where
  "storeOK store = (\<forall>n k d. lookupDraft store n k = Some d \<longrightarrow> stateOK d)"

text \<open>A selected answer is an answer of the current question.\<close>

definition selectionOK :: "decision_tree \<Rightarrow> app \<Rightarrow> bool" where
  "selectionOK tree s =
     (\<forall>k. selectedAnswerKey s = Some k \<and> k \<noteq> [] \<longrightarrow>
        (\<exists>nd ans. currentNode tree s = Some (Question nd)
           \<and> find (\<lambda>candidate. a_key candidate = k) (q_answers nd) = Some ans))"

text \<open>Every history entry names a question and one of its answers.\<close>

definition historyOK :: "decision_tree \<Rightarrow> app \<Rightarrow> bool" where
  "historyOK tree s =
     (\<forall>e \<in> set (history s). \<exists>k nd ans.
        h_selectedAnswerKey e = Some k \<and> k \<noteq> []
        \<and> nodes tree (h_nodeId e) = Some (Question nd)
        \<and> find (\<lambda>candidate. a_key candidate = k) (q_answers nd) = Some ans)"

text \<open>The condition of the first effect: an automatic confirmation is due.\<close>

definition pending :: "decision_tree \<Rightarrow> app \<Rightarrow> bool" where
  "pending tree s =
     (truthy (selectedAnswerKey s) \<and> type_of (variant (proofState s)) = NoneT
      \<and> isQuestion (currentNode tree s))"

definition statesOK :: "app \<Rightarrow> bool" where
  "statesOK s = (stateOK (proofState s) \<and> storeOK (draftStore s))"

definition linksOK :: "decision_tree \<Rightarrow> app \<Rightarrow> bool" where
  "linksOK tree s = (selectionOK tree s \<and> historyOK tree s)"

definition sessionOK :: "decision_tree \<Rightarrow> app \<Rightarrow> bool" where
  "sessionOK tree s = (statesOK s \<and> linksOK tree s \<and> \<not> pending tree s)"

text \<open>A session on the 1000 x 600 image that moves the glide slider to 2.\<close>

definition slide_session :: "event list" where
  "slide_session =
     [FileLoaded img1000, SelectAnswer ''glide'', GlideLine lineH, GlideDistanceChange 2]"

section \<open>Patch sampler\<close>

lemma Math_round_clamp:
  assumes "m \<in> \<int>" "0 \<le> m"
  shows "clamp (Math_round v) 0 m = Math_round (clamp v 0 m)"
proof -
  obtain k :: int where k: "m = of_int k" using assms(1) by (auto elim: Ints_cases)
  have r0: "Math_round 0 = 0" by (simp add: Math_round_def)
  have rm: "Math_round m = m" unfolding Math_round_def k by simp
  have mono: "\<And>a b. a \<le> b \<Longrightarrow> Math_round a \<le> Math_round b"
    unfolding Math_round_def by (simp add: floor_mono)
  show ?thesis
  proof (cases "v \<le> 0")
    case True
    then have "Math_round v \<le> 0" using mono[of v 0] r0 by simp
    then show ?thesis using True assms(2) r0 rm by (auto simp add: clamp_def min_def max_def)
  next
    case False
    show ?thesis
    proof (cases "m \<le> v")
      case True
      then have "m \<le> Math_round v" using mono[of m v] rm by simp
      then show ?thesis using True False assms(2) rm r0 by (auto simp add: clamp_def min_def max_def)
    next
      case F2: False
      then have a: "Math_round v \<le> m" using mono[of v m] rm by simp
      have b: "0 \<le> Math_round v" using mono[of 0 v] r0 False by simp
      show ?thesis using a b False F2 by (auto simp add: clamp_def min_def max_def)
    qed
  qed
qed

lemma clamp_bounds: "0 \<le> m \<Longrightarrow> 0 \<le> clamp v 0 m \<and> clamp v 0 m \<le> m"
  by (auto simp: clamp_def)

lemma Math_round_Ints: "Math_round v \<in> \<int>"
  by (simp add: Math_round_def)

lemma samplePatch_Some:
  assumes "0 < availableWidth img" and "0 < availableHeight img"
  shows "\<exists>p. samplePatch img c sz = Some p"
  using assms by (simp add: samplePatch_def Let_def)

text \<open>
  C2, as the claim states it, fails: with a 251 x 251 image the patch-size limits clamp a
  requested size of 50 up to 251/5, and a focus at x = 250 then gives the crop start
  1004/5 (round, then clamp), which is not an integer; clamping and then rounding, as the
  claim words it, gives 201, a crop that would leave the image.
\<close>

theorem samplePatch_crop_counterexample:
  "map_option origin (samplePatch img251 \<lparr> p_x = 250, p_y = 125 \<rparr> (251 / 5))
     = Some \<lparr> p_x = 1004 / 5, p_y = 100 \<rparr>
   \<and> spec_cropStart 250 (251 / 5) 251 = 201
   \<and> (1004 / 5 :: real) \<noteq> 201"
  by (simp add: samplePatch_def img251_def availableWidth_def availableHeight_def Let_def
        clamp_def Math_round_def spec_cropStart_def)

text \<open>
  C2, amended: for an image with positive dimensions \<open>samplePatch\<close> returns a sample of size
  \<open>min(requestedSize, imageWidth, imageHeight)\<close> whose crop start is, on each axis,
  \<open>round(focus - size/2)\<close> clamped into \<open>[0, imageDim - size]\<close>; the crop lies inside the
  image; \<open>relativeCenter\<close> is \<open>focus - cropStart\<close>, unclamped; and when the size is an
  integer the crop start is an integer and equals the clamp-then-round value of the
  specification.
\<close>

theorem samplePatch_crop:
  assumes "0 < availableWidth img" and "0 < availableHeight img"
  shows "\<exists>p. samplePatch img c sz = Some p
    \<and> size_patch p = min sz (min (real (availableWidth img)) (real (availableHeight img)))
    \<and> p_x (origin p) = clamp (Math_round (p_x c - size_patch p / 2)) 0
                          (real (availableWidth img) - size_patch p)
    \<and> p_y (origin p) = clamp (Math_round (p_y c - size_patch p / 2)) 0
                          (real (availableHeight img) - size_patch p)
    \<and> 0 \<le> p_x (origin p) \<and> p_x (origin p) + size_patch p \<le> real (availableWidth img)
    \<and> 0 \<le> p_y (origin p) \<and> p_y (origin p) + size_patch p \<le> real (availableHeight img)
    \<and> relativeCenter p = \<lparr> p_x = p_x c - p_x (origin p), p_y = p_y c - p_y (origin p) \<rparr>
    \<and> (size_patch p \<in> \<int> \<longrightarrow>
          p_x (origin p) \<in> \<int> \<and> p_y (origin p) \<in> \<int>
        \<and> p_x (origin p) = spec_cropStart (p_x c) (size_patch p) (real (availableWidth img))
        \<and> p_y (origin p) = spec_cropStart (p_y c) (size_patch p) (real (availableHeight img)))"
proof -
  define n where "n = min sz (min (real (availableWidth img)) (real (availableHeight img)))"
  define mx where "mx = real (availableWidth img) - n"
  define my where "my = real (availableHeight img) - n"
  define ox where "ox = clamp (Math_round (p_x c - n / 2)) 0 mx"
  define oy where "oy = clamp (Math_round (p_y c - n / 2)) 0 my"
  define p where "p = \<lparr> data = GetImageData n n [DrawImageRegion img ox oy n n 0 0 n n] 0 0 n n,
      origin = \<lparr> p_x = ox, p_y = oy \<rparr>,
      relativeCenter = \<lparr> p_x = p_x c - ox, p_y = p_y c - oy \<rparr>,
      size_patch = n \<rparr>"
  have mx0: "0 \<le> mx" and my0: "0 \<le> my" by (simp_all add: mx_def my_def n_def)
  have sp: "samplePatch img c sz = Some p"
    using assms mx0 my0
    by (simp add: samplePatch_def Let_def p_def ox_def oy_def mx_def my_def n_def max_def)
  have bx: "0 \<le> ox \<and> ox + n \<le> real (availableWidth img)"
    using clamp_bounds[OF mx0, of "Math_round (p_x c - n / 2)"] by (simp add: ox_def mx_def)
  have by': "0 \<le> oy \<and> oy + n \<le> real (availableHeight img)"
    using clamp_bounds[OF my0, of "Math_round (p_y c - n / 2)"] by (simp add: oy_def my_def)
  have ints: "n \<in> \<int> \<longrightarrow> ox \<in> \<int> \<and> oy \<in> \<int>
      \<and> ox = spec_cropStart (p_x c) n (real (availableWidth img))
      \<and> oy = spec_cropStart (p_y c) n (real (availableHeight img))"
  proof
    assume n: "n \<in> \<int>"
    have mxi: "mx \<in> \<int>" and myi: "my \<in> \<int>" using n by (simp_all add: mx_def my_def)
    have ex: "ox = Math_round (clamp (p_x c - n / 2) 0 mx)"
      unfolding ox_def by (rule Math_round_clamp[OF mxi mx0])
    have ey: "oy = Math_round (clamp (p_y c - n / 2) 0 my)"
      unfolding oy_def by (rule Math_round_clamp[OF myi my0])
    show "ox \<in> \<int> \<and> oy \<in> \<int>
      \<and> ox = spec_cropStart (p_x c) n (real (availableWidth img))
      \<and> oy = spec_cropStart (p_y c) n (real (availableHeight img))"
      using ex ey by (simp add: spec_cropStart_def mx_def my_def Math_round_Ints)
  qed
  have c1: "size_patch p = min sz (min (real (availableWidth img)) (real (availableHeight img)))"
    by (simp add: p_def n_def)
  have c2: "p_x (origin p) = clamp (Math_round (p_x c - size_patch p / 2)) 0
              (real (availableWidth img) - size_patch p)"
    by (simp add: p_def ox_def mx_def)
  have c3: "p_y (origin p) = clamp (Math_round (p_y c - size_patch p / 2)) 0
              (real (availableHeight img) - size_patch p)"
    by (simp add: p_def oy_def my_def)
  have c4: "0 \<le> p_x (origin p)" "p_x (origin p) + size_patch p \<le> real (availableWidth img)"
    using bx by (simp_all add: p_def)
  have c5: "0 \<le> p_y (origin p)" "p_y (origin p) + size_patch p \<le> real (availableHeight img)"
    using by' by (simp_all add: p_def)
  have c6: "relativeCenter p = \<lparr> p_x = p_x c - p_x (origin p), p_y = p_y c - p_y (origin p) \<rparr>"
    by (simp add: p_def)
  have c7: "size_patch p \<in> \<int> \<longrightarrow>
          p_x (origin p) \<in> \<int> \<and> p_y (origin p) \<in> \<int>
        \<and> p_x (origin p) = spec_cropStart (p_x c) (size_patch p) (real (availableWidth img))
        \<and> p_y (origin p) = spec_cropStart (p_y c) (size_patch p) (real (availableHeight img))"
    using ints by (auto simp add: p_def)
  show ?thesis using sp c1 c2 c3 c4 c5 c6 c7 by blast
qed

theorem samplePatch_crop_witness:
  "0 < availableWidth img300 \<and> 0 < availableHeight img300
   \<and> map_option origin (samplePatch img300 \<lparr> p_x = 290, p_y = 20 \<rparr> 100)
       = Some \<lparr> p_x = 200, p_y = 0 \<rparr>
   \<and> map_option relativeCenter (samplePatch img300 \<lparr> p_x = 290, p_y = 20 \<rparr> 100)
       = Some \<lparr> p_x = 90, p_y = 20 \<rparr>"
proof -
  have w: "0 < availableWidth img300" and h: "0 < availableHeight img300"
    by (simp_all add: availableWidth_def availableHeight_def img300_def)
  have aw: "availableWidth img300 = 300" and ah: "availableHeight img300 = 200"
    by (simp_all add: availableWidth_def availableHeight_def img300_def)
  from samplePatch_crop[OF w h, of "\<lparr> p_x = 290, p_y = 20 \<rparr>" 100]
  obtain p where "samplePatch img300 \<lparr> p_x = 290, p_y = 20 \<rparr> 100 = Some p"
    and "size_patch p = 100"
    and "p_x (origin p) = clamp (Math_round (290 - size_patch p / 2)) 0 (300 - size_patch p)"
    and "p_y (origin p) = clamp (Math_round (20 - size_patch p / 2)) 0 (200 - size_patch p)"
    and "relativeCenter p = \<lparr> p_x = 290 - p_x (origin p), p_y = 20 - p_y (origin p) \<rparr>"
    by (auto simp: aw ah)
  then show ?thesis using w h
    by (cases "origin p") (simp add: clamp_def Math_round_def)
qed

section \<open>Proof state operations\<close>

lemmas sample_defs = samplePatch_def availableWidth_def availableHeight_def Let_def
  clamp_def Math_round_def midPoint_def PATCH_SIZE_def

lemma resizePatch_fields:
  "patchSize (resizePatch im st sz) = sz"
  "ready (resizePatch im st sz) = ready st"
  "variant (resizePatch im st sz) = variant st"
  by (auto simp: resizePatch_def Let_def split: option.splits variant.splits)

lemma patchSizeLimits_loaded:
  assumes "element im = Some img" and "0 < width im" and "0 < height im"
  shows "lim_min (patchSizeLimits im) = max 40 (2 / 10 * min (real (width im)) (real (height im)))"
    and "lim_max (patchSizeLimits im) = max 80 (min (real (width im)) (real (height im)))"
    and "lim_min (patchSizeLimits im) \<le> lim_max (patchSizeLimits im)"
  using assms by (auto simp: patchSizeLimits_def Let_def min_def max_def)

text \<open>
  C9: with a loaded image of positive dimensions, the size requested through the patch
  slider is clamped into \<open>[min, max]\<close>, \<open>min = max(40, 0.2 * min(imageWidth, imageHeight))\<close>
  and \<open>max = max(80, min(imageWidth, imageHeight))\<close>, and the clamped size is what
  \<open>resizePatch\<close> resamples with and stores.
\<close>

theorem handlePatchSizeChange_clamps:
  assumes "element im = Some img" and "0 < width im" and "0 < height im"
  shows "lim_min (patchSizeLimits im) = max 40 (2 / 10 * min (real (width im)) (real (height im)))
       \<and> lim_max (patchSizeLimits im) = max 80 (min (real (width im)) (real (height im)))
       \<and> lim_min (patchSizeLimits im) \<le> lim_max (patchSizeLimits im)
       \<and> handlePatchSizeChange im v st
           = resizePatch im st (clamp v (lim_min (patchSizeLimits im)) (lim_max (patchSizeLimits im)))
       \<and> lim_min (patchSizeLimits im) \<le> patchSize (handlePatchSizeChange im v st)
       \<and> patchSize (handlePatchSizeChange im v st) \<le> lim_max (patchSizeLimits im)"
proof -
  note L = patchSizeLimits_loaded[OF assms]
  have c: "min (max v (lim_min (patchSizeLimits im))) (lim_max (patchSizeLimits im))
      = clamp v (lim_min (patchSizeLimits im)) (lim_max (patchSizeLimits im))"
    using L(3) by (simp add: clamp_def min_def max_def)
  have h: "handlePatchSizeChange im v st
           = resizePatch im st (clamp v (lim_min (patchSizeLimits im)) (lim_max (patchSizeLimits im)))"
    by (simp add: handlePatchSizeChange_def Let_def c)
  have b: "lim_min (patchSizeLimits im) \<le> clamp v (lim_min (patchSizeLimits im)) (lim_max (patchSizeLimits im))"
       "clamp v (lim_min (patchSizeLimits im)) (lim_max (patchSizeLimits im)) \<le> lim_max (patchSizeLimits im)"
    using L(3) by (simp_all add: clamp_def)
  show ?thesis using L h b by (simp add: resizePatch_fields)
qed


theorem handlePatchSizeChange_clamps_witness:
  "element im300 = Some img300 \<and> 0 < width im300 \<and> 0 < height im300
   \<and> lim_min (patchSizeLimits im300) = 40 \<and> lim_max (patchSizeLimits im300) = 200
   \<and> patchSize (handlePatchSizeChange im300 500 mirror300) = 200
   \<and> patchSize (handlePatchSizeChange im300 10 mirror300) = 40"
proof -
  have e: "element im300 = Some img300" and w: "0 < width im300" and h: "0 < height im300"
    by (simp_all add: im300_def)
  have wh: "width im300 = 300" "height im300 = 200" by (simp_all add: im300_def)
  note t = handlePatchSizeChange_clamps[OF e w h]
  have lims: "lim_min (patchSizeLimits im300) = 40" "lim_max (patchSizeLimits im300) = 200"
    using t[of 0 mirror300] by (simp_all add: wh)
  have "patchSize (handlePatchSizeChange im300 500 mirror300) = 200"
    using t[of 500 mirror300] lims by (simp add: resizePatch_fields clamp_def)
  moreover have "patchSize (handlePatchSizeChange im300 10 mirror300) = 40"
    using t[of 10 mirror300] lims by (simp add: resizePatch_fields clamp_def)
  ultimately show ?thesis using e w h lims by simp
qed

text \<open>
  C4: in a glide state \<open>captureLine\<close> slides by the stored fraction times half the size of
  the sampled patch, and \<open>handleGlideDistanceChange\<close> slides by the new fraction times the
  larger image dimension; with a larger dimension of 1000 px the fraction 1/2 slides by
  500 px.
\<close>

theorem glide_distance_conversions:
  assumes "element im = Some img"
    and "variant st = GlideV l d"
    and "samplePatch img (midPoint lin) (patchSize st) = Some patch"
    and "variant st' = GlideV (Some lin') d'"
    and "patchSample st' = Some sample"
  shows "after_data (captureLine im lin GlideT isFinal st)
           = Some (glidePatch patch lin (d * (size_patch patch / 2)) img)
       \<and> variant (captureLine im lin GlideT isFinal st) = GlideV (Some lin) d
       \<and> after_data (handleGlideDistanceChange im v st')
           = Some (glidePatch sample lin' (v * max (real (width im)) (real (height im))) img)
       \<and> variant (handleGlideDistanceChange im v st') = GlideV (Some lin') v
       \<and> (max (width im) (height im) = 1000 \<longrightarrow>
            after_data (handleGlideDistanceChange im (1 / 2) st')
              = Some (glidePatch sample lin' 500 img))"
proof -
  have a: "after_data (captureLine im lin GlideT isFinal st)
           = Some (glidePatch patch lin (d * (size_patch patch / 2)) img)"
     and b: "variant (captureLine im lin GlideT isFinal st) = GlideV (Some lin) d"
    using assms(1,2,3) by (simp_all add: captureLine_def Let_def)
  have c: "\<And>v. after_data (handleGlideDistanceChange im v st')
           = Some (glidePatch sample lin' (v * max (real (width im)) (real (height im))) img)"
     and d: "variant (handleGlideDistanceChange im v st') = GlideV (Some lin') v"
    using assms(1,4,5) by (simp_all add: handleGlideDistanceChange_def Let_def)
  have e: "max (width im) (height im) = 1000 \<longrightarrow>
            after_data (handleGlideDistanceChange im (1 / 2) st')
              = Some (glidePatch sample lin' 500 img)"
  proof
    assume "max (width im) (height im) = 1000"
    then have "max (real (width im)) (real (height im)) = 1000"
      by (metis of_nat_max of_nat_numeral)
    then show "after_data (handleGlideDistanceChange im (1 / 2) st')
              = Some (glidePatch sample lin' 500 img)" using c[of "1/2"] by simp
  qed
  show ?thesis using a b c d e by blast
qed


theorem glide_distance_conversions_witness:
  "element im1000 = Some img1000
   \<and> variant (createProofState GlideT None) = GlideV None (1 / 2)
   \<and> variant glide1000 = GlideV (Some lineH) (1 / 2)
   \<and> map_option size_patch (samplePatch img1000 (midPoint lineH) (patchSize (createProofState GlideT None))) = Some 280
   \<and> map_option size_patch (patchSample glide1000) = Some 280
   \<and> after_data (captureLine im1000 lineH GlideT True (createProofState GlideT None))
        = map_option (\<lambda>p. glidePatch p lineH 70 img1000) (patchSample glide1000)
   \<and> after_data (handleGlideDistanceChange im1000 (1 / 2) glide1000)
        = map_option (\<lambda>p. glidePatch p lineH 500 img1000) (patchSample glide1000)"
proof -
  define P where "P = \<lparr> data = GetImageData 280 280 [DrawImageRegion img1000 10 0 280 280 0 0 280 280] 0 0 280 280,
          origin = \<lparr> p_x = 10, p_y = 0 \<rparr>, relativeCenter = \<lparr> p_x = 140, p_y = 100 \<rparr>,
          size_patch = 280 \<rparr>"
  have e: "element im1000 = Some img1000" by (simp add: im1000_def)
  have v0: "variant (createProofState GlideT None) = GlideV None (1 / 2)"
    by (simp add: createProofState_def)
  have sp: "samplePatch img1000 (midPoint lineH) (patchSize (createProofState GlideT None)) = Some P"
    by (simp add: sample_defs createProofState_def lineH_def img1000_def P_def)
  have v1: "variant glide1000 = GlideV (Some lineH) (1 / 2)"
    and ps: "patchSample glide1000 = Some P"
    unfolding glide1000_def using e v0 sp by (simp_all add: captureLine_def)
  have m: "max (width im1000) (height im1000) = 1000" by (simp add: im1000_def)
  note t = glide_distance_conversions[OF e v0 sp v1 ps, of True "1 / 2"]
  have a1: "after_data (captureLine im1000 lineH GlideT True (createProofState GlideT None))
           = Some (glidePatch P lineH (1 / 2 * (size_patch P / 2)) img1000)"
    using t by blast
  have a2: "after_data (handleGlideDistanceChange im1000 (1 / 2) glide1000)
              = Some (glidePatch P lineH 500 img1000)"
    using t m by blast
  have sz: "1 / 2 * (size_patch P / 2) = 70" by (simp add: P_def)
  show ?thesis using e v0 v1 sp ps a1 a2 by (simp add: sz) (simp add: P_def)
qed

text \<open>
  C3: in a glide state with a line and a patch sample, resizing the patch and then setting
  the glide distance gives the same state, and so the same after buffer, as the opposite
  order; likewise for a rotation state with a center and a patch sample and the number of
  repeats.
\<close>

theorem resize_commutes:
  assumes "variant g = GlideV (Some lin) d" and "patchSample g = Some pg"
    and "variant r = RotationV (Some c) a n0" and "patchSample r = Some pr"
  shows "handleGlideDistanceChange im f (handlePatchSizeChange im s g)
           = handlePatchSizeChange im s (handleGlideDistanceChange im f g)
       \<and> after_data (handleGlideDistanceChange im f (handlePatchSizeChange im s g))
           = after_data (handlePatchSizeChange im s (handleGlideDistanceChange im f g))
       \<and> handleRotationRepeatChange im n (handlePatchSizeChange im s r)
           = handlePatchSizeChange im s (handleRotationRepeatChange im n r)
       \<and> after_data (handleRotationRepeatChange im n (handlePatchSizeChange im s r))
           = after_data (handlePatchSizeChange im s (handleRotationRepeatChange im n r))"
proof -
  have G: "handleGlideDistanceChange im f (resizePatch im g z)
           = resizePatch im (handleGlideDistanceChange im f g) z" for z
    using assms(1,2)
    by (cases "element im")
       (auto simp: handleGlideDistanceChange_def resizePatch_def Let_def split: option.splits)
  have R: "handleRotationRepeatChange im n (resizePatch im r z)
           = resizePatch im (handleRotationRepeatChange im n r) z" for z
    using assms(3,4)
    by (cases "element im")
       (auto simp: handleRotationRepeatChange_def resizePatch_def Let_def split: option.splits)
  show ?thesis by (simp add: handlePatchSizeChange_def Let_def G R)
qed

lemma example_patches:
  "samplePatch img300 (midPoint lineH) 280 =
   Some \<lparr> data = GetImageData 200 200 [DrawImageRegion img300 50 0 200 200 0 0 200 200] 0 0 200 200,
          origin = \<lparr> p_x = 50, p_y = 0 \<rparr>, relativeCenter = \<lparr> p_x = 100, p_y = 100 \<rparr>,
          size_patch = 200 \<rparr>"
  "samplePatch img300 \<lparr> p_x = 150, p_y = 100 \<rparr> 280 =
   Some \<lparr> data = GetImageData 200 200 [DrawImageRegion img300 50 0 200 200 0 0 200 200] 0 0 200 200,
          origin = \<lparr> p_x = 50, p_y = 0 \<rparr>, relativeCenter = \<lparr> p_x = 100, p_y = 100 \<rparr>,
          size_patch = 200 \<rparr>"
  by (simp_all add: sample_defs lineH_def img300_def)

lemma example_states:
  "variant glide300 = GlideV (Some lineH) (1 / 2)"
  "patchSample glide300 = samplePatch img300 (midPoint lineH) 280"
  "ready glide300"
  "variant mirror300 = MirrorV (Some lineH)"
  "patchSample mirror300 = samplePatch img300 (midPoint lineH) 280"
  "ready mirror300"
  "variant rotation300 = RotationV (Some \<lparr> p_x = 150, p_y = 100 \<rparr>) 90 1"
  "patchSample rotation300 = samplePatch img300 \<lparr> p_x = 150, p_y = 100 \<rparr> 280"
  "ready rotation300"
  unfolding glide300_def mirror300_def rotation300_def
  by (simp_all add: captureLine_def handleRotationPick_def createProofState_def im300_def
        example_patches PATCH_SIZE_def)

theorem resize_commutes_witness:
  "variant glide300 = GlideV (Some lineH) (1 / 2)
   \<and> patchSample glide300 = samplePatch img300 (midPoint lineH) 280
   \<and> variant rotation300 = RotationV (Some \<lparr> p_x = 150, p_y = 100 \<rparr>) 90 1
   \<and> patchSample rotation300 = samplePatch img300 \<lparr> p_x = 150, p_y = 100 \<rparr> 280
   \<and> after_data (handleGlideDistanceChange im300 (1 / 4) (handlePatchSizeChange im300 100 glide300))
       = after_data (handlePatchSizeChange im300 100 (handleGlideDistanceChange im300 (1 / 4) glide300))
   \<and> after_data (handleRotationRepeatChange im300 3 (handlePatchSizeChange im300 100 rotation300))
       = after_data (handlePatchSizeChange im300 100 (handleRotationRepeatChange im300 3 rotation300))"
  using resize_commutes[OF example_states(1) example_states(2)[unfolded example_patches(1)]
          example_states(7) example_states(8)[unfolded example_patches(2)],
          of im300 "1 / 4" 100 3]
        example_states
  by simp


lemma ready_handlers:
  "ready (handleGlideDistanceChange im v st) = ready st"
  "ready (handleRotationRepeatChange im v st) = ready st"
  "ready (handlePatchSizeChange im v st) = ready st"
  "ready (captureLine im lin k False st) = ready st"
  "ready st \<Longrightarrow> ready (captureLine im lin k True st)"
  "ready st \<Longrightarrow> ready (handleRotationPick im pt st)"
  by (auto simp: handleGlideDistanceChange_def handleRotationRepeatChange_def
        handlePatchSizeChange_def resizePatch_fields captureLine_def handleRotationPick_def Let_def
      split: option.splits variant.splits proof_type.splits)

lemma ready_gained:
  "\<not> ready st \<Longrightarrow> ready (handleRotationPick im pt st) \<Longrightarrow>
     after_data (handleRotationPick im pt st) \<noteq> None \<and> patchSample (handleRotationPick im pt st) \<noteq> None"
  "\<not> ready st \<Longrightarrow> ready (captureLine im lin k True st) \<Longrightarrow>
     after_data (captureLine im lin k True st) \<noteq> None \<and> patchSample (captureLine im lin k True st) \<noteq> None"
  by (auto simp: captureLine_def handleRotationPick_def Let_def
      split: option.splits variant.splits proof_type.splits)

text \<open>
  C5: \<open>ready\<close> is true at initialization exactly for the none variant; no operation on the
  proof state sets it back to false; and while it is false only \<open>handleRotationPick\<close> and
  \<open>captureLine\<close> with \<open>isFinal = true\<close> can set it, and they do so together with a computed
  transform.
\<close>

theorem ready_flag:
  "ready (createProofState ty a) = (ty = NoneT)
   \<and> (ready st \<longrightarrow>
         ready (handleRotationPick im pt st) \<and> ready (captureLine im lin k isFinal st)
       \<and> ready (handleGlideDistanceChange im v st) \<and> ready (handleRotationRepeatChange im v st)
       \<and> ready (handlePatchSizeChange im v st))
   \<and> (\<not> ready st \<longrightarrow>
         \<not> ready (captureLine im lin k False st)
       \<and> \<not> ready (handleGlideDistanceChange im v st) \<and> \<not> ready (handleRotationRepeatChange im v st)
       \<and> \<not> ready (handlePatchSizeChange im v st)
       \<and> (ready (handleRotationPick im pt st) \<longrightarrow>
             after_data (handleRotationPick im pt st) \<noteq> None
           \<and> patchSample (handleRotationPick im pt st) \<noteq> None)
       \<and> (ready (captureLine im lin k True st) \<longrightarrow>
             after_data (captureLine im lin k True st) \<noteq> None
           \<and> patchSample (captureLine im lin k True st) \<noteq> None))"
proof -
  have a: "ready (createProofState ty a) = (ty = NoneT)" by (simp add: createProofState_def)
  have b: "ready st \<Longrightarrow> ready (captureLine im lin k isFinal st)"
    by (cases isFinal) (simp_all add: ready_handlers)
  show ?thesis using b by (simp add: a ready_handlers ready_gained)
qed


theorem ready_flag_witness:
  "ready glide300
   \<and> ready (handleRotationPick im300 \<lparr> p_x = 1, p_y = 2 \<rparr> glide300)
   \<and> ready (captureLine im300 lineH GlideT False glide300)
   \<and> ready (handleGlideDistanceChange im300 (1 / 4) glide300)
   \<and> ready (handleRotationRepeatChange im300 3 glide300)
   \<and> ready (handlePatchSizeChange im300 100 glide300)
   \<and> \<not> ready (createProofState GlideT None)
   \<and> \<not> ready (captureLine im300 lineH GlideT False (createProofState GlideT None))
   \<and> \<not> ready (handlePatchSizeChange im300 100 (createProofState GlideT None))
   \<and> ready (captureLine im300 lineH GlideT True (createProofState GlideT None))
   \<and> after_data (captureLine im300 lineH GlideT True (createProofState GlideT None)) \<noteq> None"
proof -
  have r: "ready glide300" by (rule example_states)
  have n: "\<not> ready (createProofState GlideT None)" by (simp add: createProofState_def)
  have g: "ready (captureLine im300 lineH GlideT True (createProofState GlideT None))"
    using r by (simp add: glide300_def)
  show ?thesis
    using r n g
      ready_flag[of GlideT None glide300 im300 "\<lparr> p_x = 1, p_y = 2 \<rparr>" lineH GlideT False "1 / 4"]
      ready_flag[of GlideT None glide300 im300 "\<lparr> p_x = 1, p_y = 2 \<rparr>" lineH GlideT False 3]
      ready_flag[of GlideT None glide300 im300 "\<lparr> p_x = 1, p_y = 2 \<rparr>" lineH GlideT False 100]
      ready_flag[of GlideT None "createProofState GlideT None" im300 "\<lparr> p_x = 1, p_y = 2 \<rparr>" lineH GlideT False 100]
    by blast
qed

text \<open>
  C8, amended: a rotation point outside the rotation variant, a line of a kind that is not
  the current variant, a glide distance without line and patch sample, rotation repeats
  without center and patch sample, and a confirmation without readiness or selection leave
  the state unchanged; resizing the patch without a committed center or line changes
  \<open>patchSize\<close>, to the clamped size, and nothing else.
\<close>

theorem invalid_operations:
  assumes "type_of (variant st1) \<noteq> RotationT"
    and "type_of (variant st2) \<noteq> k"
    and "\<not> (\<exists>l d p. variant st3 = GlideV (Some l) d \<and> patchSample st3 = Some p)"
    and "\<not> (\<exists>c a n p. variant st4 = RotationV (Some c) a n \<and> patchSample st4 = Some p)"
    and "\<not> ready (proofState s) \<or> \<not> truthy (selectedAnswerKey s)"
    and "\<not> committedInput (variant st6)"
  shows "handleRotationPick im pt st1 = st1
       \<and> captureLine im lin k isFinal st2 = st2
       \<and> handleGlideDistanceChange im v st3 = st3
       \<and> handleRotationRepeatChange im v st4 = st4
       \<and> handleConfirmAnswer tree s = s
       \<and> handlePatchSizeChange im v st6
           = st6 \<lparr> patchSize := min (max v (lim_min (patchSizeLimits im))) (lim_max (patchSizeLimits im)) \<rparr>"
proof -
  have 1: "handleRotationPick im pt st1 = st1"
    using assms(1) by (cases "variant st1") (simp_all add: handleRotationPick_def split: option.splits)
  have 2: "captureLine im lin k isFinal st2 = st2"
    using assms(2) by (cases "variant st2"; cases k) (simp_all add: captureLine_def split: option.splits)
  have 3: "handleGlideDistanceChange im v st3 = st3"
    using assms(3)
    by (auto simp: handleGlideDistanceChange_def Let_def split: option.splits variant.splits)
  have 4: "handleRotationRepeatChange im v st4 = st4"
    using assms(4)
    by (auto simp: handleRotationRepeatChange_def Let_def split: option.splits variant.splits)
  have 5: "handleConfirmAnswer tree s = s"
    using assms(5) by (auto simp: handleConfirmAnswer_def split: option.splits node.splits)
  have 6: "resizePatch im st6 z = st6 \<lparr> patchSize := z \<rparr>" for z
    using assms(6)
    by (cases "variant st6" rule: committedInput.cases)
       (simp_all add: resizePatch_def split: option.splits)
  show ?thesis using 1 2 3 4 5 by (simp add: handlePatchSizeChange_def Let_def 6)
qed

text \<open>
  C8, as the claim states it, fails for the resize: in a mirror state without a line the
  patch size changes from 280 to 100.
\<close>

theorem invalid_operations_counterexample:
  "\<not> committedInput (variant (createProofState MirrorT None))
   \<and> patchSize (createProofState MirrorT None) = 280
   \<and> patchSize (handlePatchSizeChange im300 100 (createProofState MirrorT None)) = 100
   \<and> handlePatchSizeChange im300 100 (createProofState MirrorT None) \<noteq> createProofState MirrorT None"
proof -
  have a: "patchSize (createProofState MirrorT None) = 280"
    by (simp add: createProofState_def PATCH_SIZE_def)
  have b: "patchSize (handlePatchSizeChange im300 100 (createProofState MirrorT None)) = 100"
    by (simp add: handlePatchSizeChange_def resizePatch_fields patchSizeLimits_def im300_def Let_def)
  have c: "\<not> committedInput (variant (createProofState MirrorT None))"
    by (simp add: createProofState_def)
  have "handlePatchSizeChange im300 100 (createProofState MirrorT None) \<noteq> createProofState MirrorT None"
    using a b by auto
  then show ?thesis using a b c by simp
qed

theorem invalid_operations_witness:
  "type_of (variant mirror300) \<noteq> RotationT
   \<and> type_of (variant rotation300) \<noteq> MirrorT
   \<and> patchSample (createProofState GlideT None) = None
   \<and> patchSample (createProofState RotationT None) = None
   \<and> \<not> ready (proofState stalled)
   \<and> \<not> committedInput (variant (createProofState MirrorT None))
   \<and> handleRotationPick im300 \<lparr> p_x = 150, p_y = 100 \<rparr> mirror300 = mirror300
   \<and> captureLine im300 lineH MirrorT True rotation300 = rotation300
   \<and> handleGlideDistanceChange im300 (1 / 4) (createProofState GlideT None) = createProofState GlideT None
   \<and> handleRotationRepeatChange im300 (1 / 4) (createProofState RotationT None)
        = createProofState RotationT None
   \<and> handleConfirmAnswer tree_ex stalled = stalled
   \<and> handlePatchSizeChange im300 (1 / 4) (createProofState MirrorT None)
        = (createProofState MirrorT None) \<lparr> patchSize := 40 \<rparr>"
proof -
  have h1: "type_of (variant mirror300) \<noteq> RotationT" by (simp add: example_states)
  have h2: "type_of (variant rotation300) \<noteq> MirrorT" by (simp add: example_states)
  have p3: "patchSample (createProofState GlideT None) = None"
    and p4: "patchSample (createProofState RotationT None) = None"
    by (simp_all add: createProofState_def)
  have h3: "\<not> (\<exists>l d p. variant (createProofState GlideT None) = GlideV (Some l) d
              \<and> patchSample (createProofState GlideT None) = Some p)"
    using p3 by simp
  have h4: "\<not> (\<exists>c a n p. variant (createProofState RotationT None) = RotationV (Some c) a n
              \<and> patchSample (createProofState RotationT None) = Some p)"
    using p4 by simp
  have n5: "\<not> ready (proofState stalled)" by (simp add: stalled_def createProofState_def)
  then have h5: "\<not> ready (proofState stalled) \<or> \<not> truthy (selectedAnswerKey stalled)" by simp
  have h6: "\<not> committedInput (variant (createProofState MirrorT None))"
    by (simp add: createProofState_def)
  have lim: "min (max (1 / 4) (lim_min (patchSizeLimits im300))) (lim_max (patchSizeLimits im300)) = 40"
    by (simp add: patchSizeLimits_def im300_def Let_def)
  show ?thesis
    using invalid_operations[OF h1 h2 h3 h4 h5 h6, of im300 "\<lparr> p_x = 150, p_y = 100 \<rparr>" lineH True
            "1 / 4" tree_ex]
          h1 h2 p3 p4 n5 h6
    by (simp add: lim)
qed

section \<open>Rendering and effects\<close>

lemma draftEffect_fields:
  "image_st (draftEffect cur p) = image_st p"
  "currentNodeId (draftEffect cur p) = currentNodeId p"
  "selectedAnswerKey (draftEffect cur p) = selectedAnswerKey p"
  "proofState (draftEffect cur p) = proofState p"
  "history (draftEffect cur p) = history p"
  by (simp_all add: draftEffect_def split: option.splits)

lemma draftEffect_deps:
  "autoConfirmDeps tree (draftEffect cur p) = autoConfirmDeps tree p"
  "draftDeps (draftEffect cur p) = draftDeps p"
  by (simp_all add: autoConfirmDeps_def draftDeps_def currentNode_def draftEffect_fields)

lemma settle_same: "settle tree s s = s"
  by (subst settle.simps) simp

text \<open>Without a pending automatic confirmation, rendering only writes the draft through.\<close>

lemma settle_plain:
  assumes "\<not> (truthy (selectedAnswerKey cur) \<and> type_of (variant (proofState cur)) = NoneT
              \<and> isQuestion (currentNode tree cur))"
  shows "settle tree prev cur = (if draftDeps prev \<noteq> draftDeps cur then draftEffect cur cur else cur)"
proof -
  have ac: "autoConfirmEffect tree cur = cur" using assms by (auto simp: autoConfirmEffect_def)
  have re: "runEffects tree prev cur = (if draftDeps prev \<noteq> draftDeps cur then draftEffect cur cur else cur)"
    by (simp add: runEffects_def ac)
  have st: "settle tree cur (runEffects tree prev cur) = runEffects tree prev cur"
    by (subst settle.simps) (simp add: re draftEffect_deps)
  show ?thesis
  proof (cases "autoConfirmDeps tree prev = autoConfirmDeps tree cur \<and> draftDeps prev = draftDeps cur")
    case True
    then show ?thesis by (subst settle.simps) simp
  next
    case False
    then have "settle tree prev cur = settle tree cur (runEffects tree prev cur)"
      by (subst settle.simps) auto
    then show ?thesis using st re by simp
  qed
qed

lemma confirm_proceeds:
  assumes "currentNode tree cur = Some (Question nd)"
    and "selectedAnswerKey cur = Some k" and "k \<noteq> []" and "ready (proofState cur)"
    and "find (\<lambda>candidate. a_key candidate = k) (q_answers nd) = Some ans"
  shows "handleConfirmAnswer tree cur =
           cur \<lparr> history := history cur @ [\<lparr> h_nodeId = q_id nd, h_selectedAnswerKey = Some k \<rparr>],
                 currentNodeId := a_next ans,
                 selectedAnswerKey := None,
                 proofState := createProofState NoneT None,
                 draftStore :=
                   AList.update (a_next ans)
                     (case map_of (draftStore cur) (a_next ans) of Some d \<Rightarrow> d | None \<Rightarrow> [])
                     (draftStore cur) \<rparr>"
  using assms by (simp add: handleConfirmAnswer_def)

text \<open>A pending automatic confirmation is performed by the first effect.\<close>

lemma settle_confirm:
  assumes "currentNode tree cur = Some (Question nd)"
    and "selectedAnswerKey cur = Some k" and "k \<noteq> []" and "ready (proofState cur)"
    and "find (\<lambda>candidate. a_key candidate = k) (q_answers nd) = Some ans"
    and "type_of (variant (proofState cur)) = NoneT"
    and "autoConfirmDeps tree prev \<noteq> autoConfirmDeps tree cur"
  shows "settle tree prev cur = draftEffect cur (handleConfirmAnswer tree cur)"
proof -
  let ?c = "handleConfirmAnswer tree cur"
  have sel: "selectedAnswerKey ?c = None"
    by (simp add: confirm_proceeds[OF assms(1-5)])
  have dd: "draftDeps prev \<noteq> draftDeps cur"
    using assms(7) by (auto simp: autoConfirmDeps_def draftDeps_def currentNode_def)
  have ac: "autoConfirmEffect tree cur = ?c"
    using assms(1,2,3,6) by (simp add: autoConfirmEffect_def)
  have re: "runEffects tree prev cur = draftEffect cur ?c"
    using assms(7) dd by (simp add: runEffects_def ac)
  have sel2: "selectedAnswerKey (draftEffect cur ?c) = None"
    by (simp add: draftEffect_fields sel)
  have "settle tree cur (draftEffect cur ?c) = draftEffect cur ?c"
    using settle_plain[of "draftEffect cur ?c" tree cur] sel2
    by (simp add: draftEffect_def)
  moreover have "settle tree prev cur = settle tree cur (runEffects tree prev cur)"
    using assms(7) by (subst settle.simps) auto
  ultimately show ?thesis using re by simp
qed


section \<open>Drafts\<close>

lemma lookupDraft_writeDraft:
  "lookupDraft (writeDraft n k st store) n' k'
     = (if n' = n \<and> k' = k then Some st else lookupDraft store n' k')"
  by (simp add: lookupDraft_def writeDraft_def update_conv')

lemma lookupDraft_ensure:
  "lookupDraft (AList.update nx (case map_of store nx of Some d \<Rightarrow> d | None \<Rightarrow> []) store) n k
     = lookupDraft store n k"
  by (simp add: lookupDraft_def update_conv' split: option.splits)

lemma confirm_noop_or_proceeds:
  "handleConfirmAnswer tree s = s \<or>
   (\<exists>nd k ans. currentNode tree s = Some (Question nd) \<and> selectedAnswerKey s = Some k \<and> k \<noteq> []
      \<and> ready (proofState s) \<and> find (\<lambda>candidate. a_key candidate = k) (q_answers nd) = Some ans)"
  by (auto simp: handleConfirmAnswer_def split: option.splits node.splits)

text \<open>
  C10: \<open>handleConfirmAnswer\<close> changes the draft of no (node, answer) pair; the only bucket
  it creates is an empty one for the destination node, when that node has none; and the
  draft of the answer just confirmed is what \<open>handleBack\<close> restores.
\<close>

theorem confirm_keeps_drafts:
  "lookupDraft (draftStore (handleConfirmAnswer tree s)) n k = lookupDraft (draftStore s) n k
   \<and> map_of (draftStore (handleConfirmAnswer tree s)) n =
       (case map_of (draftStore s) n of
          Some d \<Rightarrow> Some d
        | None \<Rightarrow> if handleConfirmAnswer tree s \<noteq> s \<and> n = currentNodeId (handleConfirmAnswer tree s)
                  then Some [] else None)
   \<and> (currentNode tree s = Some (Question nd) \<and> q_id nd = currentNodeId s
        \<and> handleConfirmAnswer tree s \<noteq> s \<and> selectedAnswerKey s = Some k'
        \<and> lookupDraft (draftStore s) (currentNodeId s) k' = Some d
      \<longrightarrow> currentNodeId (handleBack tree (handleConfirmAnswer tree s)) = currentNodeId s
        \<and> selectedAnswerKey (handleBack tree (handleConfirmAnswer tree s)) = Some k'
        \<and> proofState (handleBack tree (handleConfirmAnswer tree s)) = d)"
proof (cases "handleConfirmAnswer tree s = s")
  case True
  then show ?thesis by (simp split: option.splits)
next
  case False
  then obtain nd0 k0 ans where p: "currentNode tree s = Some (Question nd0)"
      "selectedAnswerKey s = Some k0" "k0 \<noteq> []" "ready (proofState s)"
      "find (\<lambda>candidate. a_key candidate = k0) (q_answers nd0) = Some ans"
    using confirm_noop_or_proceeds[of tree s] by blast
  note c = confirm_proceeds[OF p]
  have a: "lookupDraft (draftStore (handleConfirmAnswer tree s)) n k = lookupDraft (draftStore s) n k" for n k
    by (simp add: c lookupDraft_ensure)
  have b: "map_of (draftStore (handleConfirmAnswer tree s)) n =
       (case map_of (draftStore s) n of
          Some d \<Rightarrow> Some d
        | None \<Rightarrow> if handleConfirmAnswer tree s \<noteq> s \<and> n = currentNodeId (handleConfirmAnswer tree s)
                  then Some [] else None)"
    using False by (simp add: c update_conv' split: option.splits)
  have d: "currentNodeId (handleBack tree (handleConfirmAnswer tree s)) = currentNodeId s
        \<and> selectedAnswerKey (handleBack tree (handleConfirmAnswer tree s)) = Some k'
        \<and> proofState (handleBack tree (handleConfirmAnswer tree s)) = d"
    if h: "currentNode tree s = Some (Question nd)" "q_id nd = currentNodeId s"
       "selectedAnswerKey s = Some k'" "lookupDraft (draftStore s) (currentNodeId s) k' = Some d"
  proof -
    have e: "nd0 = nd" "k0 = k'" using p h by simp_all
    have nn: "nodes tree (currentNodeId s) = Some (Question nd)"
      using h(1) by (simp add: currentNode_def)
    have l: "lookupDraft (draftStore (handleConfirmAnswer tree s)) (currentNodeId s) k' = Some d"
      using a h(4) by simp
    have hist: "history (handleConfirmAnswer tree s)
        = history s @ [\<lparr> h_nodeId = currentNodeId s, h_selectedAnswerKey = Some k' \<rparr>]"
      using e h(2) by (simp add: c)
    show ?thesis
      using p(3) e by (simp add: handleBack_def hist Let_def nn l)
  qed
  show ?thesis using a b d by blast
qed


section \<open>Backtracking\<close>

lemma settle_plain_fields:
  assumes "\<not> (truthy (selectedAnswerKey cur) \<and> type_of (variant (proofState cur)) = NoneT
              \<and> isQuestion (currentNode tree cur))"
  shows "image_st (settle tree prev cur) = image_st cur"
    and "currentNodeId (settle tree prev cur) = currentNodeId cur"
    and "selectedAnswerKey (settle tree prev cur) = selectedAnswerKey cur"
    and "proofState (settle tree prev cur) = proofState cur"
    and "history (settle tree prev cur) = history cur"
  by (simp_all add: settle_plain[OF assms] draftEffect_fields)

lemma settle_unselected:
  assumes "selectedAnswerKey cur = None"
  shows "settle tree prev cur = cur"
  using settle_plain[of cur tree prev] assms by (simp add: draftEffect_def)

lemma settle_plain_draft:
  assumes "\<not> (truthy (selectedAnswerKey cur) \<and> type_of (variant (proofState cur)) = NoneT
              \<and> isQuestion (currentNode tree cur))"
    and "selectedAnswerKey cur = Some k" and "k \<noteq> []"
    and "draftDeps prev \<noteq> draftDeps cur
         \<or> lookupDraft (draftStore cur) (currentNodeId cur) k = Some (proofState cur)"
  shows "lookupDraft (draftStore (settle tree prev cur)) (currentNodeId cur) k = Some (proofState cur)"
  using assms(2,3,4)
  by (auto simp: settle_plain[OF assms(1)] draftEffect_def lookupDraft_writeDraft)

lemma select_found:
  assumes "imageReady s" and "currentNode tree s = Some (Question nd)"
    and "find (\<lambda>candidate. a_key candidate = k) (q_answers nd) = Some ans"
  shows "handleSelectAnswer tree k s =
           s \<lparr> selectedAnswerKey := Some k,
                proofState :=
                  (case lookupDraft (draftStore s) (currentNodeId s) k of
                     Some d \<Rightarrow> d
                   | None \<Rightarrow> createProofState (fst (resolveProofRequirements nd (Some ans)))
                              (snd (resolveProofRequirements nd (Some ans)))) \<rparr>"
  using assms by (simp add: handleSelectAnswer_def Let_def case_prod_beta)

text \<open>
  C6: from a question without a selection, select an answer whose proof state is of the
  mirror variant, draw a line, confirm and go back: the confirmation arrives at the
  answer's target node, and going back restores the node, the selected answer and exactly
  the proof state of before the confirmation, with its line and buffers. Going back with
  an empty history changes nothing, and without a draft \<open>handleBack\<close> builds a fresh proof
  state of the resolved type.
\<close>

theorem backtracking_lossless:
  fixes tree :: decision_tree and s :: app and k :: string and lin :: line
  defines "s1 \<equiv> dispatch tree (SelectAnswer k) s"
  defines "s2 \<equiv> dispatch tree (MirrorLine lin) s1"
  defines "s3 \<equiv> dispatch tree ConfirmAnswer s2"
  defines "s4 \<equiv> dispatch tree Back s3"
  assumes img: "element (image_st s) = Some img" "0 < availableWidth img" "0 < availableHeight img"
    and node: "currentNode tree s = Some (Question nd)" "q_id nd = currentNodeId s"
    and ans: "find (\<lambda>candidate. a_key candidate = k) (q_answers nd) = Some ans" "k \<noteq> []"
    and nosel: "selectedAnswerKey s = None"
    and mirror: "type_of (variant (proofState (handleSelectAnswer tree k s))) = MirrorT"
  shows "selectedAnswerKey s2 = Some k \<and> variant (proofState s2) = MirrorV (Some lin)
       \<and> ready (proofState s2)
       \<and> lookupDraft (draftStore s2) (currentNodeId s) k = Some (proofState s2)
       \<and> currentNodeId s3 = a_next ans \<and> selectedAnswerKey s3 = None
       \<and> currentNodeId s4 = currentNodeId s \<and> selectedAnswerKey s4 = Some k
       \<and> proofState s4 = proofState s2
       \<and> before_data (proofState s4) = before_data (proofState s2)
       \<and> after_data (proofState s4) = after_data (proofState s2)
       \<and> history s4 = history s2
       \<and> (history t = [] \<longrightarrow> dispatch tree Back t = t)
       \<and> (history t \<noteq> [] \<and> nodes tree (h_nodeId (last (history t))) = Some (Question ndb)
            \<and> h_selectedAnswerKey (last (history t)) = Some kb \<and> kb \<noteq> []
            \<and> lookupDraft (draftStore t) (h_nodeId (last (history t))) kb = None
          \<longrightarrow> proofState (handleBack tree t)
              = createProofState
                  (fst (resolveProofRequirements ndb (find (\<lambda>candidate. a_key candidate = kb) (q_answers ndb))))
                  (snd (resolveProofRequirements ndb (find (\<lambda>candidate. a_key candidate = kb) (q_answers ndb)))))"
proof -
  \<comment> \<open>selecting the answer\<close>
  define c1 where "c1 = handleSelectAnswer tree k s"
  have ready0: "imageReady s" using img(1) by (simp add: imageReady_def)
  obtain P where c1: "c1 = s \<lparr> selectedAnswerKey := Some k, proofState := P \<rparr>"
    using select_found[OF ready0 node(1) ans(1)] by (simp add: c1_def)
  have tP: "type_of (variant P) = MirrorT" using mirror c1 by (simp add: c1_def[symmetric])
  have np1: "\<not> (truthy (selectedAnswerKey c1) \<and> type_of (variant (proofState c1)) = NoneT
              \<and> isQuestion (currentNode tree c1))"
    using tP by (simp add: c1)
  have s1: "s1 = settle tree s c1" by (simp add: s1_def dispatch_def c1_def)
  have dd1: "draftDeps s \<noteq> draftDeps c1" using nosel by (simp add: draftDeps_def c1)
  have f1: "image_st s1 = image_st s" "currentNodeId s1 = currentNodeId s"
      "selectedAnswerKey s1 = Some k" "proofState s1 = P" "history s1 = history s"
    using settle_plain_fields[OF np1, of s] by (simp_all add: s1 c1)
  \<comment> \<open>drawing the line\<close>
  obtain patch where patch: "samplePatch img (midPoint lin) (patchSize P) = Some patch"
    using samplePatch_Some[OF img(2,3)] by blast
  obtain l0 where vP: "variant P = MirrorV l0" using tP by (cases "variant P") simp_all
  define P1 where "P1 = captureLine (image_st s) lin MirrorT True P"
  have P1: "variant P1 = MirrorV (Some lin)" "ready P1"
    by (simp_all add: P1_def captureLine_def img(1) vP patch)
  define c2 where "c2 = handle tree (MirrorLine lin) s1"
  have c2: "c2 = s1 \<lparr> proofState := P1 \<rparr>"
    by (simp add: c2_def setProofState_def f1 P1_def)
  have np2: "\<not> (truthy (selectedAnswerKey c2) \<and> type_of (variant (proofState c2)) = NoneT
              \<and> isQuestion (currentNode tree c2))"
    using P1 by (simp add: c2)
  have s2: "s2 = settle tree s1 c2" by (simp add: s2_def dispatch_def c2_def)
  have f2: "image_st s2 = image_st s" "currentNodeId s2 = currentNodeId s"
      "selectedAnswerKey s2 = Some k" "proofState s2 = P1" "history s2 = history s"
    using settle_plain_fields[OF np2, of s1] by (simp_all add: s2 c2 f1)
  have l1: "lookupDraft (draftStore s1) (currentNodeId s) k = Some P"
    using settle_plain_draft[OF np1, of k s] dd1 ans(2) by (simp add: s1 c1)
  have l2: "lookupDraft (draftStore s2) (currentNodeId s) k = Some P1"
  proof -
    have "draftDeps s1 \<noteq> draftDeps c2
         \<or> lookupDraft (draftStore c2) (currentNodeId c2) k = Some (proofState c2)"
      using l1 by (auto simp: c2 draftDeps_def f1)
    then show ?thesis
      using settle_plain_draft[OF np2, of k s1] ans(2) by (simp add: s2 c2 f1)
  qed
  \<comment> \<open>confirming\<close>
  have cn2: "currentNode tree s2 = Some (Question nd)"
    using node(1) by (simp add: currentNode_def f2)
  note cp = confirm_proceeds[OF cn2 f2(3) ans(2) _ ans(1), unfolded f2, OF P1(2)]
  define c3 where "c3 = handleConfirmAnswer tree s2"
  have "selectedAnswerKey c3 = None" by (simp add: c3_def cp)
  then have "settle tree s2 c3 = c3" by (rule settle_unselected)
  then have s3: "s3 = c3" by (simp add: s3_def dispatch_def c3_def)
  have f3: "currentNodeId s3 = a_next ans" "selectedAnswerKey s3 = None"
      "history s3 = history s @ [\<lparr> h_nodeId = currentNodeId s, h_selectedAnswerKey = Some k \<rparr>]"
    by (simp_all add: s3 c3_def cp node(2))
  have l3: "lookupDraft (draftStore s3) (currentNodeId s) k = Some P1"
    using l2 by (simp add: s3 c3_def cp lookupDraft_ensure)
  \<comment> \<open>going back\<close>
  have nn: "nodes tree (currentNodeId s) = Some (Question nd)"
    using node(1) by (simp add: currentNode_def)
  define c4 where "c4 = handleBack tree s3"
  have c4: "c4 = s3 \<lparr> currentNodeId := currentNodeId s, selectedAnswerKey := Some k,
                      proofState := P1, history := history s \<rparr>"
    using ans(2) by (simp add: c4_def handleBack_def f3 Let_def nn l3)
  have np4: "\<not> (truthy (selectedAnswerKey c4) \<and> type_of (variant (proofState c4)) = NoneT
              \<and> isQuestion (currentNode tree c4))"
    using P1 by (simp add: c4)
  have s4: "s4 = settle tree s3 c4" by (simp add: s4_def dispatch_def c4_def)
  have f4: "currentNodeId s4 = currentNodeId s" "selectedAnswerKey s4 = Some k"
      "proofState s4 = P1" "history s4 = history s"
    using settle_plain_fields[OF np4, of s3] by (simp_all add: s4 c4)
  \<comment> \<open>the two general facts about going back\<close>
  have e1: "history t = [] \<longrightarrow> dispatch tree Back t = t"
    by (simp add: dispatch_def handleBack_def settle_same)
  have e2: "history t \<noteq> [] \<and> nodes tree (h_nodeId (last (history t))) = Some (Question ndb)
            \<and> h_selectedAnswerKey (last (history t)) = Some kb \<and> kb \<noteq> []
            \<and> lookupDraft (draftStore t) (h_nodeId (last (history t))) kb = None
          \<longrightarrow> proofState (handleBack tree t)
              = createProofState
                  (fst (resolveProofRequirements ndb (find (\<lambda>candidate. a_key candidate = kb) (q_answers ndb))))
                  (snd (resolveProofRequirements ndb (find (\<lambda>candidate. a_key candidate = kb) (q_answers ndb))))"
    by (simp add: handleBack_def Let_def split: prod.splits)
  show ?thesis using f2 P1 l2 f3 f4 e1 e2 by simp
qed

section \<open>The example session\<close>

lemma tree_ex_n1: "nodes tree_ex ''n1'' = Some (Question node1)"
  by (simp add: tree_ex_def)

lemma node1_find:
  "find (\<lambda>candidate. a_key candidate = ''yes'') (q_answers node1) = Some ans_yes"
  "find (\<lambda>candidate. a_key candidate = ''glide'') (q_answers node1) = Some ans_glide"
  "find (\<lambda>candidate. a_key candidate = ''no'') (q_answers node1) = Some ans_no"
  by (simp_all add: node1_def ans_yes_def ans_glide_def ans_no_def)

theorem confirm_keeps_drafts_witness:
  "currentNode tree_ex drawn300 = Some (Question node1)
   \<and> q_id node1 = currentNodeId drawn300
   \<and> handleConfirmAnswer tree_ex drawn300 \<noteq> drawn300
   \<and> selectedAnswerKey drawn300 = Some ''yes''
   \<and> lookupDraft (draftStore drawn300) (currentNodeId drawn300) ''yes'' = Some mirror300
   \<and> lookupDraft (draftStore (handleConfirmAnswer tree_ex drawn300)) ''n1'' ''yes'' = Some mirror300
   \<and> map_of (draftStore (handleConfirmAnswer tree_ex drawn300)) ''n2'' = Some []
   \<and> currentNodeId (handleConfirmAnswer tree_ex drawn300) = ''n2''
   \<and> proofState (handleBack tree_ex (handleConfirmAnswer tree_ex drawn300)) = mirror300"
proof -
  have cn: "currentNode tree_ex drawn300 = Some (Question node1)"
    by (simp add: currentNode_def drawn300_def tree_ex_n1)
  have q: "q_id node1 = currentNodeId drawn300" by (simp add: node1_def drawn300_def)
  have sel: "selectedAnswerKey drawn300 = Some ''yes''" by (simp add: drawn300_def)
  have rd: "ready (proofState drawn300)" by (simp add: drawn300_def example_states)
  note cp = confirm_proceeds[OF cn sel _ rd node1_find(1), simplified]
  have ne: "handleConfirmAnswer tree_ex drawn300 \<noteq> drawn300"
  proof
    assume "handleConfirmAnswer tree_ex drawn300 = drawn300"
    then have "selectedAnswerKey (handleConfirmAnswer tree_ex drawn300) = Some ''yes''"
      using sel by simp
    then show False by (simp add: cp)
  qed
  have l: "lookupDraft (draftStore drawn300) (currentNodeId drawn300) ''yes'' = Some mirror300"
    by (simp add: lookupDraft_def drawn300_def)
  have n1: "currentNodeId drawn300 = ''n1''" by (simp add: drawn300_def)
  have nx: "currentNodeId (handleConfirmAnswer tree_ex drawn300) = ''n2''"
    by (simp add: cp ans_yes_def)
  have m: "map_of (draftStore drawn300) ''n2'' = None" by (simp add: drawn300_def)
  from confirm_keeps_drafts[of tree_ex drawn300 "''n1''" "''yes''" node1 "''yes''" mirror300]
  have a: "lookupDraft (draftStore (handleConfirmAnswer tree_ex drawn300)) ''n1'' ''yes'' = Some mirror300"
    and c: "proofState (handleBack tree_ex (handleConfirmAnswer tree_ex drawn300)) = mirror300"
    using cn q ne sel l n1 by simp_all
  from confirm_keeps_drafts[of tree_ex drawn300 "''n2''" "''yes''" node1 "''yes''" mirror300]
  have b: "map_of (draftStore (handleConfirmAnswer tree_ex drawn300)) ''n2'' = Some []"
    using ne nx m by simp
  show ?thesis using cn q ne sel l a b c nx by simp
qed

theorem backtracking_lossless_witness:
  "element (image_st app300) = Some img300
   \<and> 0 < availableWidth img300 \<and> 0 < availableHeight img300
   \<and> currentNode tree_ex app300 = Some (Question node1)
   \<and> q_id node1 = currentNodeId app300
   \<and> find (\<lambda>candidate. a_key candidate = ''yes'') (q_answers node1) = Some ans_yes
   \<and> selectedAnswerKey app300 = None
   \<and> type_of (variant (proofState (handleSelectAnswer tree_ex ''yes'' app300))) = MirrorT
   \<and> currentNodeId (dispatch tree_ex ConfirmAnswer (dispatch tree_ex (MirrorLine lineH)
         (dispatch tree_ex (SelectAnswer ''yes'') app300))) = ''n2''
   \<and> currentNodeId (dispatch tree_ex Back (dispatch tree_ex ConfirmAnswer
         (dispatch tree_ex (MirrorLine lineH) (dispatch tree_ex (SelectAnswer ''yes'') app300)))) = ''n1''
   \<and> selectedAnswerKey (dispatch tree_ex Back (dispatch tree_ex ConfirmAnswer
         (dispatch tree_ex (MirrorLine lineH) (dispatch tree_ex (SelectAnswer ''yes'') app300))))
       = Some ''yes''
   \<and> variant (proofState (dispatch tree_ex Back (dispatch tree_ex ConfirmAnswer
         (dispatch tree_ex (MirrorLine lineH) (dispatch tree_ex (SelectAnswer ''yes'') app300)))))
       = MirrorV (Some lineH)
   \<and> dispatch tree_ex Back app300 = app300
   \<and> proofState (handleBack tree_ex returned300) = createProofState MirrorT None"
proof -
  have e: "element (image_st app300) = Some img300" by (simp add: app300_def im300_def)
  have w: "0 < availableWidth img300" and h: "0 < availableHeight img300"
    by (simp_all add: availableWidth_def availableHeight_def img300_def)
  have cn: "currentNode tree_ex app300 = Some (Question node1)"
    by (simp add: currentNode_def app300_def tree_ex_n1)
  have q: "q_id node1 = currentNodeId app300" by (simp add: node1_def app300_def)
  have k: "''yes'' \<noteq> []" by simp
  have ns: "selectedAnswerKey app300 = None" by (simp add: app300_def)
  have ir: "imageReady app300" by (simp add: imageReady_def e)
  have ld: "lookupDraft (draftStore app300) (currentNodeId app300) ''yes'' = None"
    by (simp add: lookupDraft_def app300_def)
  have rq: "fst (resolveProofRequirements node1 (Some ans_yes)) = MirrorT"
    by (simp add: resolveProofRequirements_def ans_yes_def node1_def)
  have ty: "type_of (variant (proofState (handleSelectAnswer tree_ex ''yes'' app300))) = MirrorT"
    unfolding select_found[OF ir cn node1_find(1)] by (simp add: ld rq createProofState_def)
  have h0: "history app300 = []" by (simp add: app300_def)
  have r: "history returned300 \<noteq> [] \<and>
       nodes tree_ex (h_nodeId (last (history returned300))) = Some (Question node1) \<and>
       h_selectedAnswerKey (last (history returned300)) = Some ''yes'' \<and> ''yes'' \<noteq> [] \<and>
       lookupDraft (draftStore returned300) (h_nodeId (last (history returned300))) ''yes'' = None"
    by (simp add: returned300_def app300_def tree_ex_n1 lookupDraft_def)
  have rs: "resolveProofRequirements node1 (find (\<lambda>candidate. a_key candidate = ''yes'') (q_answers node1))
      = (MirrorT, None)"
    by (simp add: node1_find resolveProofRequirements_def ans_yes_def) (simp add: node1_def)
  note t1 = backtracking_lossless[OF e w h cn q node1_find(1) k ns ty,
      where lin = lineH and t = app300]
  note t2 = backtracking_lossless[OF e w h cn q node1_find(1) k ns ty,
      where lin = lineH and t = returned300 and ndb = node1 and kb = "''yes''"]
  have b: "proofState (handleBack tree_ex returned300) = createProofState MirrorT None"
    using t2 r rs by simp
  have a: "dispatch tree_ex Back app300 = app300" using t1 h0 by blast
  show ?thesis using e w h cn q node1_find(1) ns ty t1 a b
    by (simp add: ans_yes_def app300_def)
qed

section \<open>Session invariants\<close>

lemma stateOK_create: "stateOK (createProofState ty a)"
  by (cases ty) (simp_all add: stateOK_def createProofState_def)

lemma stateOK_resizePatch: "stateOK st \<Longrightarrow> stateOK (resizePatch im st sz)"
  by (simp add: stateOK_def resizePatch_fields)

lemma stateOK_handlers:
  assumes "stateOK st"
  shows "stateOK (handleRotationPick im pt st)"
    and "stateOK (captureLine im lin kind isFinal st)"
    and "0 \<le> v \<Longrightarrow> stateOK (handleGlideDistanceChange im v st)"
    and "stateOK (handleRotationRepeatChange im v st)"
    and "stateOK (handlePatchSizeChange im v st)"
proof -
  show "stateOK (handleRotationPick im pt st)"
    using assms
    by (cases "element im"; cases "variant st")
       (simp_all add: stateOK_def handleRotationPick_def split: option.splits)
  show "stateOK (captureLine im lin kind isFinal st)"
    using assms
    by (cases "element im"; cases "variant st"; cases kind)
       (simp_all add: stateOK_def captureLine_def Let_def split: option.splits)
  show "0 \<le> v \<Longrightarrow> stateOK (handleGlideDistanceChange im v st)"
    using assms
    by (cases "element im"; cases "variant st"; cases "patchSample st")
       (simp_all add: stateOK_def handleGlideDistanceChange_def Let_def split: option.splits)
  show "stateOK (handleRotationRepeatChange im v st)"
    using assms
    by (cases "element im"; cases "variant st"; cases "patchSample st")
       (simp_all add: stateOK_def handleRotationRepeatChange_def Let_def split: option.splits)
  show "stateOK (handlePatchSizeChange im v st)"
    using assms by (simp add: handlePatchSizeChange_def Let_def stateOK_resizePatch)
qed

lemma storeOK_lookup: "storeOK store \<Longrightarrow> lookupDraft store n k = Some d \<Longrightarrow> stateOK d"
  by (auto simp: storeOK_def)

lemma storeOK_empty: "storeOK []"
  by (simp add: storeOK_def lookupDraft_def)

lemma storeOK_writeDraft: "storeOK store \<Longrightarrow> stateOK st \<Longrightarrow> storeOK (writeDraft n k st store)"
  by (auto simp: storeOK_def lookupDraft_writeDraft split: if_splits)

lemma storeOK_ensure:
  "storeOK store \<Longrightarrow>
   storeOK (AList.update nx (case map_of store nx of Some d \<Rightarrow> d | None \<Rightarrow> []) store)"
  by (simp add: storeOK_def lookupDraft_ensure)

subsection \<open>Proof states and drafts\<close>

lemma statesOK_setProofState:
  assumes "statesOK s" and "stateOK (f (image_st s) (proofState s))"
  shows "statesOK (setProofState f s)"
  using assms by (simp add: statesOK_def setProofState_def)

lemma restored_stateOK:
  assumes "storeOK store"
  shows "stateOK (case lookupDraft store n k of Some d \<Rightarrow> d | None \<Rightarrow> createProofState ty a)"
  using assms by (auto simp: stateOK_create dest: storeOK_lookup split: option.splits)

lemma statesOK_confirm: "statesOK s \<Longrightarrow> statesOK (handleConfirmAnswer tree s)"
  by (auto simp: handleConfirmAnswer_def statesOK_def stateOK_create storeOK_ensure
      split: option.splits node.splits)

lemma statesOK_draftEffect:
  "statesOK p \<Longrightarrow> stateOK (proofState cur) \<Longrightarrow> statesOK (draftEffect cur p)"
  by (auto simp: statesOK_def draftEffect_def storeOK_writeDraft split: option.splits)

lemma statesOK_select: "statesOK s \<Longrightarrow> statesOK (handleSelectAnswer tree k s)"
  by (auto simp: handleSelectAnswer_def statesOK_def Let_def case_prod_beta stateOK_create
      dest: storeOK_lookup split: option.splits node.splits)

lemma statesOK_reset: "statesOK s \<Longrightarrow> statesOK (handleResetProof tree s)"
  by (auto simp: handleResetProof_def statesOK_def stateOK_create Let_def case_prod_beta
      split: option.splits node.splits)

lemma statesOK_back: "statesOK s \<Longrightarrow> statesOK (handleBack tree s)"
  by (auto simp: handleBack_def statesOK_def stateOK_create Let_def case_prod_beta
      dest: storeOK_lookup split: option.splits node.splits)

lemma statesOK_handle:
  assumes "statesOK s" and "admissible s ev"
  shows "statesOK (handle tree ev s)"
proof (cases ev)
  case (FileLoaded img)
  then show ?thesis using assms(1)
    by (simp add: handleFileLoaded_def statesOK_def stateOK_create)
next
  case Restart
  then show ?thesis by (simp add: handleRestart_def statesOK_def stateOK_create storeOK_empty)
next
  case (SelectAnswer k)
  then show ?thesis using assms(1) by (simp add: statesOK_select)
next
  case ResetProof
  then show ?thesis using assms(1) by (simp add: statesOK_reset)
next
  case ChangeAnswer
  then show ?thesis using assms(1) by (simp add: handleChangeAnswer_def statesOK_def stateOK_create)
next
  case ConfirmAnswer
  then show ?thesis using assms(1) by (simp add: statesOK_confirm)
next
  case Back
  then show ?thesis using assms(1) by (simp add: statesOK_back)
next
  case (RotationPick pt)
  have "stateOK (handleRotationPick (image_st s) pt (proofState s))"
    using assms(1) by (simp add: statesOK_def stateOK_handlers)
  then show ?thesis using RotationPick assms(1) by (simp add: statesOK_setProofState)
next
  case (MirrorLine lin)
  have "stateOK (captureLine (image_st s) lin MirrorT True (proofState s))"
    using assms(1) by (simp add: statesOK_def stateOK_handlers)
  then show ?thesis using MirrorLine assms(1) by (simp add: statesOK_setProofState)
next
  case (GlideLine lin)
  have "stateOK (captureLine (image_st s) lin GlideT True (proofState s))"
    using assms(1) by (simp add: statesOK_def stateOK_handlers)
  then show ?thesis using GlideLine assms(1) by (simp add: statesOK_setProofState)
next
  case (DraftLine lin kind)
  have "stateOK (captureLine (image_st s) lin kind False (proofState s))"
    using assms(1) by (simp add: statesOK_def stateOK_handlers)
  then show ?thesis using DraftLine assms(1) by (simp add: statesOK_setProofState)
next
  case (GlideDistanceChange v)
  have "stateOK (handleGlideDistanceChange (image_st s) v (proofState s))"
    using assms GlideDistanceChange by (simp add: statesOK_def stateOK_handlers)
  then show ?thesis using GlideDistanceChange assms(1) by (simp add: statesOK_setProofState)
next
  case (PatchSizeChange v)
  have "stateOK (handlePatchSizeChange (image_st s) v (proofState s))"
    using assms(1) by (simp add: statesOK_def stateOK_handlers)
  then show ?thesis using PatchSizeChange assms(1) by (simp add: statesOK_setProofState)
next
  case (RotationRepeatChange v)
  have "stateOK (handleRotationRepeatChange (image_st s) v (proofState s))"
    using assms(1) by (simp add: statesOK_def stateOK_handlers)
  then show ?thesis using RotationRepeatChange assms(1) by (simp add: statesOK_setProofState)
qed

text \<open>What rendering can do to the state a handler left.\<close>

lemma settle_cases:
  "settle tree prev cur = cur
   \<or> settle tree prev cur = draftEffect cur cur
   \<or> settle tree prev cur = draftEffect cur (handleConfirmAnswer tree cur)"
proof (cases "truthy (selectedAnswerKey cur) \<and> type_of (variant (proofState cur)) = NoneT
              \<and> isQuestion (currentNode tree cur)")
  case False
  then show ?thesis using settle_plain[of cur tree prev] by auto
next
  case True
  show ?thesis
  proof (cases "autoConfirmDeps tree prev = autoConfirmDeps tree cur")
    case same: True
    show ?thesis
    proof (cases "draftDeps prev = draftDeps cur")
      case True
      then show ?thesis using same by (subst settle.simps) simp
    next
      case False
      have r: "runEffects tree prev cur = draftEffect cur cur"
        using same False by (simp add: runEffects_def)
      have "settle tree cur (draftEffect cur cur) = draftEffect cur cur"
        by (subst settle.simps) (simp add: draftEffect_deps)
      moreover have "settle tree prev cur = settle tree cur (runEffects tree prev cur)"
        using False by (subst settle.simps) auto
      ultimately show ?thesis using r by simp
    qed
  next
    case differ: False
    let ?c = "handleConfirmAnswer tree cur"
    have dd: "draftDeps prev \<noteq> draftDeps cur"
      using differ by (auto simp: autoConfirmDeps_def draftDeps_def currentNode_def)
    have r: "runEffects tree prev cur = draftEffect cur ?c"
      using differ dd True by (simp add: runEffects_def autoConfirmEffect_def)
    have st: "settle tree cur (draftEffect cur ?c) = draftEffect cur ?c"
    proof (cases "?c = cur")
      case True
      then show ?thesis by (subst settle.simps) (simp add: draftEffect_deps)
    next
      case False
      then have "selectedAnswerKey ?c = None"
        using confirm_noop_or_proceeds[of tree cur] confirm_proceeds[of tree cur] by auto
      then have "selectedAnswerKey (draftEffect cur ?c) = None" by (simp add: draftEffect_fields)
      then show ?thesis by (rule settle_unselected)
    qed
    have "settle tree prev cur = settle tree cur (runEffects tree prev cur)"
      using differ by (subst settle.simps) auto
    then show ?thesis using r st by simp
  qed
qed

lemma statesOK_settle:
  assumes "statesOK cur"
  shows "statesOK (settle tree prev cur)"
proof -
  have st: "stateOK (proofState cur)" using assms by (simp add: statesOK_def)
  show ?thesis
    using settle_cases[of tree prev cur] assms st
    by (auto simp: statesOK_draftEffect statesOK_confirm)
qed

lemma statesOK_run:
  "statesOK s \<Longrightarrow> admissibleRun tree s evs \<Longrightarrow> statesOK (run tree s evs)"
proof (induction evs arbitrary: s)
  case Nil
  then show ?case by simp
next
  case (Cons ev evs)
  then have "statesOK (dispatch tree ev s)"
    by (simp add: dispatch_def statesOK_settle statesOK_handle)
  then show ?case using Cons by simp
qed

lemma statesOK_initial: "statesOK (initialApp tree)"
  by (simp add: statesOK_def initialApp_def stateOK_create storeOK_empty)

section \<open>Sessions: the glide distance\<close>

lemma dispatch_plain_fields:
  assumes "\<not> (truthy (selectedAnswerKey (handle tree ev s))
              \<and> type_of (variant (proofState (handle tree ev s))) = NoneT
              \<and> isQuestion (currentNode tree (handle tree ev s)))"
  shows "image_st (dispatch tree ev s) = image_st (handle tree ev s)"
    and "currentNodeId (dispatch tree ev s) = currentNodeId (handle tree ev s)"
    and "selectedAnswerKey (dispatch tree ev s) = selectedAnswerKey (handle tree ev s)"
    and "proofState (dispatch tree ev s) = proofState (handle tree ev s)"
    and "history (dispatch tree ev s) = history (handle tree ev s)"
  unfolding dispatch_def by (rule settle_plain_fields[OF assms])+

lemma tree_ex_wf: "wf_tree tree_ex"
  by (auto simp: wf_tree_def tree_ex_def node1_def node2_def node3_def split: if_splits)

text \<open>The slider session, step by step.\<close>

lemma slide_session_steps:
  defines "s1 \<equiv> dispatch tree_ex (FileLoaded img1000) (initialApp tree_ex)"
  defines "s2 \<equiv> dispatch tree_ex (SelectAnswer ''glide'') s1"
  defines "s3 \<equiv> dispatch tree_ex (GlideLine lineH) s2"
  defines "s4 \<equiv> dispatch tree_ex (GlideDistanceChange 2) s3"
  shows "image_st s3 = im1000" and "proofState s3 = glide1000"
    and "variant (proofState s4) = GlideV (Some lineH) 2"
proof -
  have h1: "selectedAnswerKey (handle tree_ex (FileLoaded img1000) (initialApp tree_ex)) = None"
    by (simp add: handleFileLoaded_def)
  have s1: "s1 = handle tree_ex (FileLoaded img1000) (initialApp tree_ex)"
    unfolding s1_def dispatch_def by (rule settle_unselected[OF h1])
  have f1: "image_st s1 = im1000" "currentNodeId s1 = ''n1''" "draftStore s1 = []"
    by (simp_all add: s1 handleFileLoaded_def initialApp_def im1000_def img1000_def tree_ex_def)
  have ir: "imageReady s1" by (simp add: imageReady_def f1 im1000_def)
  have cn: "currentNode tree_ex s1 = Some (Question node1)"
    by (simp add: currentNode_def f1 tree_ex_n1)
  have ld: "lookupDraft (draftStore s1) (currentNodeId s1) ''glide'' = None"
    by (simp add: f1 lookupDraft_def)
  have rq: "resolveProofRequirements node1 (Some ans_glide) = (GlideT, None)"
    by (simp add: resolveProofRequirements_def ans_glide_def)
  have c2: "handle tree_ex (SelectAnswer ''glide'') s1
      = s1 \<lparr> selectedAnswerKey := Some ''glide'', proofState := createProofState GlideT None \<rparr>"
    using select_found[OF ir cn node1_find(2)] by (simp add: ld rq)
  have t2: "type_of (variant (createProofState GlideT None)) = GlideT"
    by (simp add: createProofState_def)
  have np2: "\<not> (truthy (selectedAnswerKey (handle tree_ex (SelectAnswer ''glide'') s1))
              \<and> type_of (variant (proofState (handle tree_ex (SelectAnswer ''glide'') s1))) = NoneT
              \<and> isQuestion (currentNode tree_ex (handle tree_ex (SelectAnswer ''glide'') s1)))"
    unfolding c2 using t2 by simp
  note d2 = dispatch_plain_fields[OF np2, folded s2_def, unfolded c2]
  have f2: "image_st s2 = im1000" "proofState s2 = createProofState GlideT None"
    using d2 f1 by simp_all
  have c3: "handle tree_ex (GlideLine lineH) s2 = s2 \<lparr> proofState := glide1000 \<rparr>"
    by (simp add: setProofState_def f2 glide1000_def)
  have v3: "variant glide1000 = GlideV (Some lineH) (1 / 2)"
    and p3: "patchSample glide1000 \<noteq> None"
    by (simp_all add: glide1000_def captureLine_def createProofState_def im1000_def sample_defs
          img1000_def lineH_def)
  have np3: "\<not> (truthy (selectedAnswerKey (handle tree_ex (GlideLine lineH) s2))
              \<and> type_of (variant (proofState (handle tree_ex (GlideLine lineH) s2))) = NoneT
              \<and> isQuestion (currentNode tree_ex (handle tree_ex (GlideLine lineH) s2)))"
    unfolding c3 using v3 by simp
  note d3 = dispatch_plain_fields[OF np3, folded s3_def, unfolded c3]
  show f3: "image_st s3 = im1000" "proofState s3 = glide1000"
    using d3 f2 by simp_all
  obtain p where p: "patchSample glide1000 = Some p" using p3 by auto
  have g4: "handleGlideDistanceChange im1000 2 glide1000
      = glide1000 \<lparr> variant := GlideV (Some lineH) 2,
                     after_data := Some (glidePatch p lineH 2000 img1000) \<rparr>"
  proof -
    have e: "element im1000 = Some img1000" by (simp add: im1000_def)
    have m: "max (real (width im1000)) (real (height im1000)) = 1000" by (simp add: im1000_def)
    show ?thesis by (simp add: handleGlideDistanceChange_def e m v3 p Let_def)
  qed
  have c4: "proofState (handle tree_ex (GlideDistanceChange 2) s3)
      = handleGlideDistanceChange im1000 2 glide1000"
    by (simp add: setProofState_def f3)
  have np4: "\<not> (truthy (selectedAnswerKey (handle tree_ex (GlideDistanceChange 2) s3))
              \<and> type_of (variant (proofState (handle tree_ex (GlideDistanceChange 2) s3))) = NoneT
              \<and> isQuestion (currentNode tree_ex (handle tree_ex (GlideDistanceChange 2) s3)))"
    unfolding c4 g4 by simp
  note d4 = dispatch_plain_fields[OF np4, folded s4_def]
  show "variant (proofState s4) = GlideV (Some lineH) 2"
    using d4(4) c4 by (simp add: g4)
qed

lemma slide_session_max: "glideMaxDistance im1000 glide1000 = 1000 / 280"
  by (simp add: glideMaxDistance_def glide1000_def captureLine_def createProofState_def
        im1000_def sample_defs img1000_def lineH_def)

lemma slide_session_admissible: "admissibleRun tree_ex (initialApp tree_ex) slide_session"
  by (simp add: slide_session_def slide_session_steps slide_session_max)

lemma slide_session_distance:
  "variant (proofState (run tree_ex (initialApp tree_ex) slide_session)) = GlideV (Some lineH) 2"
  by (simp add: slide_session_def slide_session_steps)

text \<open>
  C1, as the claim states it, fails: on a 1000 x 600 image with a 280 px patch the glide
  slider ranges up to 1000/280, and moving it to 2 stores the distance 2.
\<close>

theorem glide_distance_counterexample:
  "admissibleRun tree_ex (initialApp tree_ex) slide_session
   \<and> variant (proofState (run tree_ex (initialApp tree_ex) slide_session)) = GlideV (Some lineH) 2
   \<and> \<not> (2 :: real) \<le> 1"
  by (simp add: slide_session_admissible slide_session_distance)

text \<open>
  C1, amended: in every state a session reaches, the distance of a glide proof state, and
  of every stored glide draft, is not negative (it is not bounded by 1). Initialization
  sets it to 1/2, and \<open>handleGlideDistanceChange\<close> stores the value it is given, which the
  slider takes from \<open>[0, glideMaxDistance]\<close>, unclamped.
\<close>

theorem glide_distance_nonneg:
  assumes "admissibleRun tree (initialApp tree) evs"
  shows "variant (createProofState GlideT a) = GlideV None (1 / 2)
    \<and> (\<forall>l d. variant (proofState (run tree (initialApp tree) evs)) = GlideV l d \<longrightarrow> 0 \<le> d)
    \<and> (\<forall>n k st l d. lookupDraft (draftStore (run tree (initialApp tree) evs)) n k = Some st
           \<and> variant st = GlideV l d \<longrightarrow> 0 \<le> d)
    \<and> (element im = Some img \<and> variant st' = GlideV (Some lin) d' \<and> patchSample st' = Some p
         \<longrightarrow> variant (handleGlideDistanceChange im v st') = GlideV (Some lin) v)"
proof -
  have ok: "statesOK (run tree (initialApp tree) evs)"
    using statesOK_run[OF statesOK_initial assms] .
  have a: "variant (createProofState GlideT a) = GlideV None (1 / 2)"
    by (simp add: createProofState_def)
  have b: "\<forall>l d. variant (proofState (run tree (initialApp tree) evs)) = GlideV l d \<longrightarrow> 0 \<le> d"
    using ok by (auto simp: statesOK_def stateOK_def)
  have c: "\<forall>n k st l d. lookupDraft (draftStore (run tree (initialApp tree) evs)) n k = Some st
           \<and> variant st = GlideV l d \<longrightarrow> 0 \<le> d"
  proof (intro allI impI)
    fix n k st l d
    assume h: "lookupDraft (draftStore (run tree (initialApp tree) evs)) n k = Some st
           \<and> variant st = GlideV l d"
    then have "stateOK st" using ok by (auto simp: statesOK_def dest: storeOK_lookup)
    then show "0 \<le> d" using h by (simp add: stateOK_def)
  qed
  have d: "element im = Some img \<and> variant st' = GlideV (Some lin) d' \<and> patchSample st' = Some p
         \<longrightarrow> variant (handleGlideDistanceChange im v st') = GlideV (Some lin) v"
    by (simp add: handleGlideDistanceChange_def Let_def)
  show ?thesis using a b c d by blast
qed

theorem glide_distance_nonneg_witness:
  "admissibleRun tree_ex (initialApp tree_ex) slide_session
   \<and> variant (createProofState GlideT None) = GlideV None (1 / 2)
   \<and> (\<exists>l d. variant (proofState (run tree_ex (initialApp tree_ex) slide_session)) = GlideV l d
          \<and> 0 \<le> d)
   \<and> element im1000 = Some img1000
   \<and> variant glide1000 = GlideV (Some lineH) (1 / 2)
   \<and> patchSample glide1000 \<noteq> None
   \<and> variant (handleGlideDistanceChange im1000 2 glide1000) = GlideV (Some lineH) 2"
proof -
  note t = glide_distance_nonneg[OF slide_session_admissible]
  have e: "element im1000 = Some img1000" by (simp add: im1000_def)
  have v: "variant glide1000 = GlideV (Some lineH) (1 / 2)"
    and ps: "patchSample glide1000 \<noteq> None"
    by (simp_all add: glide1000_def captureLine_def createProofState_def im1000_def sample_defs
          img1000_def lineH_def)
  obtain p where p: "patchSample glide1000 = Some p" using ps by auto
  have a: "0 \<le> (2 :: real)"
    using t[of None im1000 img1000 glide1000 lineH "1 / 2" p 2] slide_session_distance by blast
  have b: "variant (handleGlideDistanceChange im1000 2 glide1000) = GlideV (Some lineH) 2"
    using t[of None im1000 img1000 glide1000 lineH "1 / 2" p 2] e v p by blast
  have c: "variant (createProofState GlideT None) = GlideV None (1 / 2)"
    using t[of None im1000 img1000 glide1000 lineH "1 / 2" p 2] by blast
  show ?thesis
    using slide_session_admissible slide_session_distance a b c e v ps by simp
qed

section \<open>Sessions: selections and history\<close>

lemma linksOK_setProofState: "linksOK tree s \<Longrightarrow> linksOK tree (setProofState f s)"
  by (simp add: linksOK_def setProofState_def selectionOK_def historyOK_def currentNode_def)

lemma linksOK_draftEffect: "linksOK tree p \<Longrightarrow> linksOK tree (draftEffect cur p)"
  by (simp add: linksOK_def selectionOK_def historyOK_def currentNode_def draftEffect_fields)

lemma linksOK_confirm:
  assumes "wf_tree tree" and "linksOK tree s"
  shows "linksOK tree (handleConfirmAnswer tree s)"
proof (cases "handleConfirmAnswer tree s = s")
  case True
  then show ?thesis using assms(2) by simp
next
  case False
  then obtain nd k ans where p: "currentNode tree s = Some (Question nd)"
      "selectedAnswerKey s = Some k" "k \<noteq> []" "ready (proofState s)"
      "find (\<lambda>candidate. a_key candidate = k) (q_answers nd) = Some ans"
    using confirm_noop_or_proceeds[of tree s] by blast
  have nn: "nodes tree (currentNodeId s) = Some (Question nd)"
    using p(1) by (simp add: currentNode_def)
  have id: "q_id nd = currentNodeId s"
    using assms(1) nn by (auto simp: wf_tree_def)
  show ?thesis
    using assms(2) p(3,5) nn
    by (auto simp: confirm_proceeds[OF p] linksOK_def selectionOK_def historyOK_def id)
qed

lemma linksOK_select: "linksOK tree s \<Longrightarrow> linksOK tree (handleSelectAnswer tree k s)"
proof (cases "handleSelectAnswer tree k s = s")
  case True
  then show "linksOK tree s \<Longrightarrow> ?thesis" by simp
next
  case False
  assume r: "linksOK tree s"
  from False obtain nd ans where p: "imageReady s" "currentNode tree s = Some (Question nd)"
      "find (\<lambda>candidate. a_key candidate = k) (q_answers nd) = Some ans"
    by (auto simp: handleSelectAnswer_def split: option.splits node.splits if_splits)
  show ?thesis
    using r p(2,3)
    by (simp add: select_found[OF p] linksOK_def selectionOK_def historyOK_def currentNode_def)
qed

lemma linksOK_reset: "linksOK tree s \<Longrightarrow> linksOK tree (handleResetProof tree s)"
  by (auto simp: handleResetProof_def linksOK_def selectionOK_def historyOK_def
        currentNode_def Let_def case_prod_beta
      split: option.splits node.splits)

lemma linksOK_back: "linksOK tree s \<Longrightarrow> linksOK tree (handleBack tree s)"
proof (cases "history s = []")
  case True
  then show "linksOK tree s \<Longrightarrow> ?thesis" by (simp add: handleBack_def)
next
  case False
  assume r: "linksOK tree s"
  define e where "e = last (history s)"
  have ein: "e \<in> set (history s)" using False by (simp add: e_def)
  then obtain k nd ans where h: "h_selectedAnswerKey e = Some k" "k \<noteq> []"
      "nodes tree (h_nodeId e) = Some (Question nd)"
      "find (\<lambda>candidate. a_key candidate = k) (q_answers nd) = Some ans"
    using r by (auto simp: linksOK_def historyOK_def)
  have sub: "\<And>x. x \<in> set (butlast (history s)) \<Longrightarrow> x \<in> set (history s)"
    by (rule in_set_butlastD)
  have hb: "history (handleBack tree s) = butlast (history s)"
    "currentNodeId (handleBack tree s) = h_nodeId e"
    "selectedAnswerKey (handleBack tree s) = Some k"
    using False h(1) by (simp_all add: handleBack_def Let_def e_def)
  show ?thesis
    unfolding linksOK_def selectionOK_def historyOK_def currentNode_def hb
    using r h sub by (auto simp: linksOK_def historyOK_def)
qed

lemma linksOK_handle:
  assumes "wf_tree tree" and "linksOK tree s"
  shows "linksOK tree (handle tree ev s)"
proof (cases ev)
  case (FileLoaded img)
  then show ?thesis
    by (simp add: handleFileLoaded_def linksOK_def selectionOK_def historyOK_def)
next
  case Restart
  then show ?thesis by (simp add: handleRestart_def linksOK_def selectionOK_def historyOK_def)
next
  case (SelectAnswer k)
  then show ?thesis using assms(2) by (simp add: linksOK_select)
next
  case ResetProof
  then show ?thesis using assms(2) by (simp add: linksOK_reset)
next
  case ChangeAnswer
  then show ?thesis using assms(2)
    by (simp add: handleChangeAnswer_def linksOK_def selectionOK_def historyOK_def)
next
  case ConfirmAnswer
  then show ?thesis using assms by (simp add: linksOK_confirm)
next
  case Back
  then show ?thesis using assms(2) by (simp add: linksOK_back)
qed (use assms(2) in \<open>simp_all add: linksOK_setProofState\<close>)

lemma linksOK_settle:
  assumes "wf_tree tree" and "linksOK tree cur"
  shows "linksOK tree (settle tree prev cur)"
  using settle_cases[of tree prev cur] assms
  by (auto simp: linksOK_draftEffect linksOK_confirm)

lemma pending_draftEffect: "pending tree (draftEffect cur p) = pending tree p"
  by (simp add: pending_def currentNode_def draftEffect_fields)

lemma type_of_NoneT: "type_of v = NoneT \<Longrightarrow> v = NoneV"
  by (cases v) simp_all

text \<open>
  In a session, a render that finds an automatic confirmation due performs it: the
  confirmation goes through, and the draft of the confirmed answer is written.
\<close>

lemma settle_pending:
  assumes "statesOK cur" and "linksOK tree cur" and "\<not> pending tree prev" and "pending tree cur"
  shows "\<exists>k nd ans. selectedAnswerKey cur = Some k \<and> k \<noteq> []
      \<and> currentNode tree cur = Some (Question nd)
      \<and> find (\<lambda>candidate. a_key candidate = k) (q_answers nd) = Some ans
      \<and> ready (proofState cur)
      \<and> settle tree prev cur = draftEffect cur (handleConfirmAnswer tree cur)"
proof -
  obtain k where k: "selectedAnswerKey cur = Some k" "k \<noteq> []"
    using assms(4) by (cases "selectedAnswerKey cur") (auto simp: pending_def)
  have ty: "type_of (variant (proofState cur)) = NoneT" using assms(4) by (simp add: pending_def)
  obtain nd ans where n: "currentNode tree cur = Some (Question nd)"
      "find (\<lambda>candidate. a_key candidate = k) (q_answers nd) = Some ans"
    using assms(2) k by (auto simp: linksOK_def selectionOK_def)
  have rd: "ready (proofState cur)"
    using assms(1) type_of_NoneT[OF ty] by (simp add: statesOK_def stateOK_def)
  have df: "autoConfirmDeps tree prev \<noteq> autoConfirmDeps tree cur"
  proof
    assume "autoConfirmDeps tree prev = autoConfirmDeps tree cur"
    then have "pending tree prev"
      using assms(4) by (simp add: autoConfirmDeps_def pending_def)
    then show False using assms(3) by simp
  qed
  have "settle tree prev cur = draftEffect cur (handleConfirmAnswer tree cur)"
    by (rule settle_confirm[OF n(1) k rd n(2) ty df])
  then show ?thesis using k n rd by blast
qed

lemma settle_not_pending:
  assumes "statesOK cur" and "linksOK tree cur" and "\<not> pending tree prev"
  shows "\<not> pending tree (settle tree prev cur)"
proof (cases "pending tree cur")
  case False
  then have "\<not> (truthy (selectedAnswerKey cur) \<and> type_of (variant (proofState cur)) = NoneT
              \<and> isQuestion (currentNode tree cur))"
    by (simp add: pending_def)
  from settle_plain[OF this, of prev] False show ?thesis
    by (simp add: pending_draftEffect)
next
  case True
  from settle_pending[OF assms True] obtain k nd ans where
    p: "selectedAnswerKey cur = Some k" "k \<noteq> []" "currentNode tree cur = Some (Question nd)"
       "find (\<lambda>candidate. a_key candidate = k) (q_answers nd) = Some ans"
       "ready (proofState cur)"
       "settle tree prev cur = draftEffect cur (handleConfirmAnswer tree cur)"
    by blast
  have "selectedAnswerKey (handleConfirmAnswer tree cur) = None"
    by (simp add: confirm_proceeds[OF p(3) p(1) p(2) p(5) p(4)])
  then show ?thesis by (simp add: p(6) pending_def draftEffect_fields)
qed

lemma sessionOK_dispatch:
  assumes "wf_tree tree" and "sessionOK tree s" and "admissible s ev"
  shows "sessionOK tree (dispatch tree ev s)"
proof -
  have a: "statesOK (handle tree ev s)"
    using assms(2,3) by (simp add: sessionOK_def statesOK_handle)
  have b: "linksOK tree (handle tree ev s)"
    using assms(1,2) by (simp add: sessionOK_def linksOK_handle)
  have c: "\<not> pending tree s" using assms(2) by (simp add: sessionOK_def)
  show ?thesis
    unfolding sessionOK_def dispatch_def
    using statesOK_settle[OF a] linksOK_settle[OF assms(1) b] settle_not_pending[OF a b c]
    by simp
qed

lemma sessionOK_run:
  "wf_tree tree \<Longrightarrow> sessionOK tree s \<Longrightarrow> admissibleRun tree s evs \<Longrightarrow> sessionOK tree (run tree s evs)"
proof (induction evs arbitrary: s)
  case Nil
  then show ?case by simp
next
  case (Cons ev evs)
  then have "sessionOK tree (dispatch tree ev s)" by (simp add: sessionOK_dispatch)
  then show ?case using Cons by simp
qed

lemma sessionOK_initial: "sessionOK tree (initialApp tree)"
proof -
  have "linksOK tree (initialApp tree)" "\<not> pending tree (initialApp tree)"
    by (simp_all add: linksOK_def selectionOK_def historyOK_def pending_def initialApp_def)
  then show ?thesis by (simp add: sessionOK_def statesOK_initial)
qed

text \<open>
  C7: in every state of a session over a tree whose questions are stored under their ids,
  whenever an event leaves an answer selected with a proof state of the none variant,
  whether it is the selection itself, going back into a stored draft or any other
  transition, rendering performs \<open>handleConfirmAnswer\<close> at once: the session arrives
  at the target node of the selected answer, the selection is cleared, and the history
  gains the confirmed entry.
\<close>

theorem auto_confirm:
  fixes tree :: decision_tree and evs :: "event list" and ev :: event
  defines "s \<equiv> run tree (initialApp tree) evs"
  defines "cur \<equiv> handle tree ev (run tree (initialApp tree) evs)"
  assumes "wf_tree tree"
    and "admissibleRun tree (initialApp tree) evs"
    and "admissible s ev"
    and "selectedAnswerKey cur = Some k" and "k \<noteq> []"
    and "type_of (variant (proofState cur)) = NoneT"
  shows "\<exists>nd ans. currentNode tree cur = Some (Question nd)
           \<and> find (\<lambda>candidate. a_key candidate = k) (q_answers nd) = Some ans
           \<and> dispatch tree ev s = draftEffect cur (handleConfirmAnswer tree cur)
           \<and> currentNodeId (dispatch tree ev s) = a_next ans
           \<and> selectedAnswerKey (dispatch tree ev s) = None
           \<and> proofState (dispatch tree ev s) = createProofState NoneT None
           \<and> history (dispatch tree ev s)
               = history cur @ [\<lparr> h_nodeId = currentNodeId cur, h_selectedAnswerKey = Some k \<rparr>]
           \<and> lookupDraft (draftStore (dispatch tree ev s)) (currentNodeId cur) k
               = Some (proofState cur)"
proof -
  have ok: "sessionOK tree s"
    unfolding s_def by (rule sessionOK_run[OF assms(3) sessionOK_initial assms(4)])
  have a: "statesOK cur"
    using ok assms(5) by (simp add: cur_def s_def sessionOK_def statesOK_handle)
  have b: "linksOK tree cur"
    using ok assms(3) by (simp add: cur_def s_def sessionOK_def linksOK_handle)
  have c: "\<not> pending tree s" using ok by (simp add: sessionOK_def)
  have q: "isQuestion (currentNode tree cur)"
    using b assms(6,7) by (auto simp: linksOK_def selectionOK_def)
  have d: "pending tree cur" using assms(6,7,8) q by (simp add: pending_def)
  from settle_pending[OF a b c d] obtain k' nd ans where
    p: "selectedAnswerKey cur = Some k'" "k' \<noteq> []" "currentNode tree cur = Some (Question nd)"
       "find (\<lambda>candidate. a_key candidate = k') (q_answers nd) = Some ans"
       "ready (proofState cur)"
       "settle tree s cur = draftEffect cur (handleConfirmAnswer tree cur)"
    by blast
  have kk: "k' = k" using p(1) assms(6) by simp
  have id: "q_id nd = currentNodeId cur"
    using assms(3) p(3) by (auto simp: wf_tree_def currentNode_def)
  note cp = confirm_proceeds[OF p(3) p(1) p(2) p(5) p(4)]
  have ds: "dispatch tree ev s = draftEffect cur (handleConfirmAnswer tree cur)"
    using p(6) by (simp add: dispatch_def cur_def s_def)
  have f: "currentNodeId (dispatch tree ev s) = a_next ans"
      "selectedAnswerKey (dispatch tree ev s) = None"
      "proofState (dispatch tree ev s) = createProofState NoneT None"
      "history (dispatch tree ev s)
         = history cur @ [\<lparr> h_nodeId = currentNodeId cur, h_selectedAnswerKey = Some k \<rparr>]"
    unfolding ds by (simp_all add: draftEffect_fields cp id kk)
  have l: "lookupDraft (draftStore (dispatch tree ev s)) (currentNodeId cur) k = Some (proofState cur)"
    unfolding ds using p(1,2) by (simp add: draftEffect_def lookupDraft_writeDraft kk)
  show ?thesis using p(3) p(4) ds f l kk by blast
qed

lemma upload300: "run tree_ex (initialApp tree_ex) [FileLoaded img300] = app300"
proof -
  have h: "handleFileLoaded tree_ex img300 (initialApp tree_ex) = app300"
    by (simp add: handleFileLoaded_def initialApp_def app300_def im300_def img300_def tree_ex_def)
  have "selectedAnswerKey app300 = None" by (simp add: app300_def)
  then have "settle tree_ex (initialApp tree_ex) app300 = app300" by (rule settle_unselected)
  then show ?thesis by (simp add: dispatch_def h)
qed

lemma select_no300:
  "handleSelectAnswer tree_ex ''no'' app300
     = app300 \<lparr> selectedAnswerKey := Some ''no'', proofState := createProofState NoneT None \<rparr>"
proof -
  have ir: "imageReady app300" by (simp add: imageReady_def app300_def im300_def)
  have cn: "currentNode tree_ex app300 = Some (Question node1)"
    by (simp add: currentNode_def app300_def tree_ex_n1)
  have ld: "lookupDraft (draftStore app300) (currentNodeId app300) ''no'' = None"
    by (simp add: lookupDraft_def app300_def)
  have rq: "resolveProofRequirements node1 (Some ans_no) = (NoneT, None)"
    by (simp add: resolveProofRequirements_def ans_no_def)
  show ?thesis using select_found[OF ir cn node1_find(3)] by (simp add: ld rq)
qed

theorem auto_confirm_witness:
  "wf_tree tree_ex
   \<and> admissibleRun tree_ex (initialApp tree_ex) [FileLoaded img300, SelectAnswer ''no'']
   \<and> selectedAnswerKey (handle tree_ex (SelectAnswer ''no'')
        (run tree_ex (initialApp tree_ex) [FileLoaded img300])) = Some ''no''
   \<and> type_of (variant (proofState (handle tree_ex (SelectAnswer ''no'')
        (run tree_ex (initialApp tree_ex) [FileLoaded img300])))) = NoneT
   \<and> currentNodeId (run tree_ex (initialApp tree_ex) [FileLoaded img300, SelectAnswer ''no'']) = ''n3''
   \<and> selectedAnswerKey (handle tree_ex Back
        (run tree_ex (initialApp tree_ex) [FileLoaded img300, SelectAnswer ''no''])) = Some ''no''
   \<and> type_of (variant (proofState (handle tree_ex Back
        (run tree_ex (initialApp tree_ex) [FileLoaded img300, SelectAnswer ''no''])))) = NoneT
   \<and> currentNodeId (run tree_ex (initialApp tree_ex) [FileLoaded img300, SelectAnswer ''no'', Back])
        = ''n3''"
proof -
  define s1 where "s1 = run tree_ex (initialApp tree_ex) [FileLoaded img300, SelectAnswer ''no'']"
  have r1: "s1 = dispatch tree_ex (SelectAnswer ''no'') app300"
    using upload300 by (simp add: s1_def)
  have adm1: "admissibleRun tree_ex (initialApp tree_ex) [FileLoaded img300]" by simp
  have adm2: "admissibleRun tree_ex (initialApp tree_ex) [FileLoaded img300, SelectAnswer ''no'']"
    by simp
  have k: "''no'' \<noteq> []" by simp
  \<comment> \<open>the selection\<close>
  have sel1: "selectedAnswerKey (handle tree_ex (SelectAnswer ''no'')
        (run tree_ex (initialApp tree_ex) [FileLoaded img300])) = Some ''no''"
    and ty1: "type_of (variant (proofState (handle tree_ex (SelectAnswer ''no'')
        (run tree_ex (initialApp tree_ex) [FileLoaded img300])))) = NoneT"
    unfolding upload300 handle.simps select_no300 by (simp_all add: createProofState_def)
  from auto_confirm[OF tree_ex_wf adm1 _ sel1 k ty1, unfolded upload300 handle.simps select_no300]
  obtain nd ans where c1: "currentNode tree_ex
         (app300 \<lparr> selectedAnswerKey := Some ''no'', proofState := createProofState NoneT None \<rparr>)
           = Some (Question nd)"
      "find (\<lambda>candidate. a_key candidate = ''no'') (q_answers nd) = Some ans"
      "currentNodeId (dispatch tree_ex (SelectAnswer ''no'') app300) = a_next ans"
      "selectedAnswerKey (dispatch tree_ex (SelectAnswer ''no'') app300) = None"
      "history (dispatch tree_ex (SelectAnswer ''no'') app300)
         = history app300 @ [\<lparr> h_nodeId = currentNodeId app300, h_selectedAnswerKey = Some ''no'' \<rparr>]"
      "lookupDraft (draftStore (dispatch tree_ex (SelectAnswer ''no'') app300)) (currentNodeId app300) ''no''
         = Some (createProofState NoneT None)"
    by auto
  have nd: "nd = node1" using c1(1) by (simp add: currentNode_def app300_def tree_ex_n1)
  have an: "ans = ans_no" using c1(2) node1_find(3) by (simp add: nd)
  have f1: "currentNodeId s1 = ''n3''" "history s1 = [\<lparr> h_nodeId = ''n1'', h_selectedAnswerKey = Some ''no'' \<rparr>]"
      "lookupDraft (draftStore s1) ''n1'' ''no'' = Some (createProofState NoneT None)"
    using c1(3,5,6) by (simp_all add: r1 an ans_no_def app300_def)
  \<comment> \<open>going back into the confirmed answer\<close>
  have b: "handleBack tree_ex s1
      = s1 \<lparr> currentNodeId := ''n1'', selectedAnswerKey := Some ''no'',
              proofState := createProofState NoneT None, history := [] \<rparr>"
    by (simp add: handleBack_def f1 Let_def tree_ex_n1)
  have sel2: "selectedAnswerKey (handle tree_ex Back
        (run tree_ex (initialApp tree_ex) [FileLoaded img300, SelectAnswer ''no''])) = Some ''no''"
    and ty2: "type_of (variant (proofState (handle tree_ex Back
        (run tree_ex (initialApp tree_ex) [FileLoaded img300, SelectAnswer ''no''])))) = NoneT"
    unfolding s1_def[symmetric] handle.simps by (simp_all add: b createProofState_def)
  from auto_confirm[OF tree_ex_wf adm2 _ sel2 k ty2, folded s1_def]
  obtain nd2 ans2 where c2: "currentNode tree_ex (handleBack tree_ex s1) = Some (Question nd2)"
      "find (\<lambda>candidate. a_key candidate = ''no'') (q_answers nd2) = Some ans2"
      "currentNodeId (dispatch tree_ex Back s1) = a_next ans2"
    by auto
  have nd2: "nd2 = node1" using c2(1) by (simp add: currentNode_def b tree_ex_n1)
  have an2: "ans2 = ans_no" using c2(2) node1_find(3) by (simp add: nd2)
  have r2: "run tree_ex (initialApp tree_ex) [FileLoaded img300, SelectAnswer ''no'', Back]
      = dispatch tree_ex Back s1"
    by (simp add: s1_def)
  have f2: "currentNodeId (run tree_ex (initialApp tree_ex) [FileLoaded img300, SelectAnswer ''no'', Back])
      = ''n3''"
    unfolding r2 using c2(3) by (simp add: an2 ans_no_def)
  show ?thesis
    using tree_ex_wf adm2 sel1 ty1 f1(1)[unfolded s1_def] sel2 ty2 f2 by blast
qed

end
